theory Spec2Isabelle
  imports Main
begin

section \<open>Data model: the tables of the store\<close>

text \<open>
  The tables follow the schema that the client code addresses (tables \<open>users\<close>,
  \<open>camps\<close>, \<open>camp_selections\<close> with a \<open>status\<close> column, \<open>volunteer_assignments\<close>).
  A uuid is a natural number; \<open>gen_random_uuid()\<close> is the counter \<open>next_uuid\<close> of the
  store, so a generated key is new. Timestamps are natural numbers; the clock is an
  argument of every operation. SQL \<open>integer\<close> and the JavaScript numbers holding bed
  counts are \<open>int\<close>; the store refuses a value outside the range of its 32-bit
  column (see \<open>in_integer_range\<close>). Profile columns of \<open>users\<close> that no operation reads (age, contact,
  address, needs, skills, availability) are left out.
\<close>

type_synonym uuid = nat
type_synonym timestamp = nat

datatype role = Refugee | Volunteer

record user =
  u_id :: uuid
  u_name :: string
  u_email :: string
  u_role :: role

datatype camp_type = Default | VolunteerAdded

record camp =
  c_id :: uuid
  c_name :: string
  beds :: int
  original_beds :: int
  resources :: "string list"
  contact :: "string option"
  ambulance :: string
  added_by :: "uuid option"
  c_type :: camp_type
  c_created_at :: timestamp
  c_updated_at :: timestamp

datatype status = Active | Cancelled

record selection =
  s_id :: uuid
  user_id :: uuid
  camp_id :: uuid
  status :: status
  selected_at :: timestamp
  cancelled_at :: "timestamp option"

record assignment =
  a_id :: uuid
  volunteer_id :: uuid
  a_camp_id :: uuid
  a_created_at :: timestamp

record store =
  tbl_users :: "user list"
  tbl_camps :: "camp list"
  tbl_camp_selections :: "selection list"
  tbl_volunteer_assignments :: "assignment list"
  next_uuid :: uuid

text \<open>
  What a store call can report in its \<open>error\<close> field: a transport or infrastructure
  failure (\<open>Unavailable\<close>, injected by the caller of the model through a flag), the
  PostgREST code \<open>PGRST116\<close> of \<open>.single()\<close> when the query has no row or several, a
  foreign key violation, a violation of \<open>UNIQUE(user_id, status)\<close>, the exception
  raised by the trigger \<open>check_single_active_selection\<close>
  ("User already has an active camp selection"), and a number outside the range of an
  \<open>integer\<close> column (SQLSTATE 22003).
\<close>

datatype store_error =
    Unavailable
  | PGRST116
  | ForeignKeyViolation
  | UniqueViolation
  | TriggerException
  | NumericValueOutOfRange

section \<open>The schema's constraints\<close>

text \<open>
  The columns \<open>beds\<close> and \<open>original_beds\<close> have type \<open>integer\<close>: 32 bits, signed. A
  request that carries a number outside this range is refused.
\<close>

definition in_integer_range :: "int \<Rightarrow> bool" where
  "in_integer_range n = (- 2147483648 \<le> n \<and> n \<le> 2147483647)"

text \<open>\<open>UNIQUE(user_id, status)\<close> on \<open>camp_selections\<close>.\<close>

definition unique_user_status :: "selection list \<Rightarrow> bool" where
  "unique_user_status sels = distinct (map (\<lambda>s. (user_id s, status s)) sels)"

text \<open>
  The trigger function \<open>check_single_active_selection\<close>, run before each insert or
  update of a row \<open>new\<close>: it raises when \<open>new\<close> is active and another row of the same
  user is active.
\<close>

definition check_single_active_selection :: "selection list \<Rightarrow> selection \<Rightarrow> bool" where
  "check_single_active_selection sels new =
     (\<not> (status new = Active \<and>
         (\<exists>s \<in> set sels. user_id s = user_id new \<and> status s = Active \<and> s_id s \<noteq> s_id new)))"

definition user_exists :: "store \<Rightarrow> uuid \<Rightarrow> bool" where
  "user_exists st uid = (\<exists>u \<in> set (tbl_users st). u_id u = uid)"

definition camp_exists :: "store \<Rightarrow> uuid \<Rightarrow> bool" where
  "camp_exists st cid = (\<exists>c \<in> set (tbl_camps st). c_id c = cid)"

section \<open>dbHelpers: the calls on the store\<close>

text \<open>
  Each helper returns \<open>Inl error\<close> or \<open>Inr data\<close> (with the new store when it writes).
  The first argument \<open>down\<close> says that the call fails before reaching the tables.
  Row-level security policies are not modelled: a request that reaches the tables is
  evaluated against the constraints only.
\<close>

definition getUserByEmail :: "bool \<Rightarrow> string \<Rightarrow> store \<Rightarrow> store_error + user" where
  "getUserByEmail down email st =
     (if down then Inl Unavailable
      else case filter (\<lambda>u. u_email u = email) (tbl_users st) of
             [u] \<Rightarrow> Inr u
           | _ \<Rightarrow> Inl PGRST116)"

text \<open>
  \<open>order('created_at', { ascending: false })\<close>: newest first. Rows with equal
  timestamps come in an order SQL leaves open; the model takes the reverse of the
  stable ascending sort.
\<close>

definition getCamps :: "bool \<Rightarrow> store \<Rightarrow> store_error + camp list" where
  "getCamps down st =
     (if down then Inl Unavailable
      else Inr (rev (sort_key c_created_at (tbl_camps st))))"

record camp_data =
  cd_name :: string
  cd_beds :: int
  cd_resources :: "string list"
  cd_contact :: "string option"
  cd_ambulance :: string

record new_camp_data = camp_data +
  nc_added_by :: uuid
  nc_type :: camp_type
  nc_original_beds :: int

text \<open>
  \<open>insert([campData]).select()\<close>. The beds counts are converted to the column type
  first, then the foreign key \<open>added_by\<close> is checked.
\<close>

definition createCamp :: "bool \<Rightarrow> timestamp \<Rightarrow> new_camp_data \<Rightarrow> store \<Rightarrow> store_error + camp \<times> store" where
  "createCamp down now d st =
     (if down then Inl Unavailable
      else if \<not> in_integer_range (cd_beds d) \<or> \<not> in_integer_range (nc_original_beds d)
        then Inl NumericValueOutOfRange
      else if \<not> user_exists st (nc_added_by d) then Inl ForeignKeyViolation
      else
        let row = \<lparr> c_id = next_uuid st, c_name = cd_name d, beds = cd_beds d,
                    original_beds = nc_original_beds d, resources = cd_resources d,
                    contact = cd_contact d, ambulance = cd_ambulance d,
                    added_by = Some (nc_added_by d), c_type = nc_type d,
                    c_created_at = now, c_updated_at = now \<rparr>
        in Inr (row, st\<lparr> tbl_camps := tbl_camps st @ [row], next_uuid := Suc (next_uuid st) \<rparr>))"

text \<open>
  \<open>update({ beds }).eq('id', id).select()\<close>; the trigger \<open>update_camps_updated_at\<close>
  stamps \<open>updated_at\<close>. The data returned is the first updated row, if any. A beds
  count that does not fit the column is refused and nothing is written.
\<close>

definition updateCamp :: "bool \<Rightarrow> timestamp \<Rightarrow> uuid \<Rightarrow> int \<Rightarrow> store \<Rightarrow> store_error + camp option \<times> store" where
  "updateCamp down now cid b st =
     (if down then Inl Unavailable
      else if \<not> in_integer_range b then Inl NumericValueOutOfRange
      else
        let upd = (\<lambda>c. if c_id c = cid then c\<lparr> beds := b, c_updated_at := now \<rparr> else c);
            rows = map upd (tbl_camps st)
        in Inr (find (\<lambda>c. c_id c = cid) rows, st\<lparr> tbl_camps := rows \<rparr>))"

text \<open>
  \<open>delete().eq('id', id)\<close>. Both \<open>camp_selections.camp_id\<close> and
  \<open>volunteer_assignments.camp_id\<close> reference \<open>camps(id)\<close> \<open>ON DELETE CASCADE\<close>.
\<close>

definition deleteCamp_db :: "bool \<Rightarrow> uuid \<Rightarrow> store \<Rightarrow> store_error + store" where
  "deleteCamp_db down cid st =
     (if down then Inl Unavailable
      else Inr (st\<lparr> tbl_camps := filter (\<lambda>c. c_id c \<noteq> cid) (tbl_camps st),
                    tbl_camp_selections := filter (\<lambda>s. camp_id s \<noteq> cid) (tbl_camp_selections st),
                    tbl_volunteer_assignments :=
                      filter (\<lambda>a. a_camp_id a \<noteq> cid) (tbl_volunteer_assignments st) \<rparr>))"

text \<open>
  Insert into \<open>camp_selections\<close>: the row gets its defaults, the trigger runs before
  the insert, then the foreign keys and the unique constraint are checked.
\<close>

definition createCampSelection ::
  "bool \<Rightarrow> timestamp \<Rightarrow> uuid \<Rightarrow> uuid \<Rightarrow> status \<Rightarrow> store \<Rightarrow> store_error + selection \<times> store" where
  "createCampSelection down now uid cid stat st =
     (if down then Inl Unavailable
      else
        let row = \<lparr> s_id = next_uuid st, user_id = uid, camp_id = cid, status = stat,
                    selected_at = now, cancelled_at = None \<rparr>
        in if \<not> check_single_active_selection (tbl_camp_selections st) row then Inl TriggerException
           else if \<not> user_exists st uid \<or> \<not> camp_exists st cid then Inl ForeignKeyViolation
           else if \<not> unique_user_status (tbl_camp_selections st @ [row]) then Inl UniqueViolation
           else Inr (row, st\<lparr> tbl_camp_selections := tbl_camp_selections st @ [row],
                              next_uuid := Suc (next_uuid st) \<rparr>))"

text \<open>
  The active selection of a user with the joined camp columns; \<open>.single()\<close> reports
  \<open>PGRST116\<close> unless exactly one row matches.
\<close>

definition getUserCampSelection :: "bool \<Rightarrow> uuid \<Rightarrow> store \<Rightarrow> store_error + selection \<times> camp option" where
  "getUserCampSelection down uid st =
     (if down then Inl Unavailable
      else case filter (\<lambda>s. user_id s = uid \<and> status s = Active) (tbl_camp_selections st) of
             [s] \<Rightarrow> Inr (s, find (\<lambda>c. c_id c = camp_id s) (tbl_camps st))
           | _ \<Rightarrow> Inl PGRST116)"

text \<open>
  \<open>update({ status: 'cancelled', cancelled_at }).eq('user_id', userId).eq('status', 'active')\<close>.
  The trigger accepts every updated row (its new status is not active); the unique
  constraint is checked on the table after the update, and a violation undoes the
  statement.
\<close>

definition cancelCampSelection :: "bool \<Rightarrow> timestamp \<Rightarrow> uuid \<Rightarrow> store \<Rightarrow> store_error + store" where
  "cancelCampSelection down now uid st =
     (if down then Inl Unavailable
      else
        let upd = (\<lambda>s. if user_id s = uid \<and> status s = Active
                        then s\<lparr> status := Cancelled, cancelled_at := Some now \<rparr> else s);
            rows = map upd (tbl_camp_selections st)
        in if \<not> unique_user_status rows then Inl UniqueViolation
           else Inr (st\<lparr> tbl_camp_selections := rows \<rparr>))"

definition createVolunteerAssignment ::
  "bool \<Rightarrow> timestamp \<Rightarrow> uuid \<Rightarrow> uuid \<Rightarrow> store \<Rightarrow> store_error + assignment \<times> store" where
  "createVolunteerAssignment down now vid cid st =
     (if down then Inl Unavailable
      else if \<not> user_exists st vid \<or> \<not> camp_exists st cid then Inl ForeignKeyViolation
      else
        let row = \<lparr> a_id = next_uuid st, volunteer_id = vid, a_camp_id = cid, a_created_at = now \<rparr>
        in Inr (row, st\<lparr> tbl_volunteer_assignments := tbl_volunteer_assignments st @ [row],
                          next_uuid := Suc (next_uuid st) \<rparr>))"

definition getVolunteerAssignments ::
  "bool \<Rightarrow> uuid \<Rightarrow> store \<Rightarrow> store_error + (assignment \<times> camp option) list" where
  "getVolunteerAssignments down vid st =
     (if down then Inl Unavailable
      else Inr (map (\<lambda>a. (a, find (\<lambda>c. c_id c = a_camp_id a) (tbl_camps st)))
                  (rev (sort_key a_created_at
                     (filter (\<lambda>a. volunteer_id a = vid) (tbl_volunteer_assignments st))))))"

section \<open>The client: AuthManager and CampManager\<close>

text \<open>
  One browser holds the two singletons: \<open>authManager.currentUser\<close>, and the fields
  \<open>camps\<close> and \<open>userSelection\<close> of \<open>campManager\<close>. No code of the repository registers a
  subscriber; the operations of this section are written for subscribers that return
  normally, and the section on exceptions has what a throwing subscriber changes.
\<close>

record client =
  currentUser :: "user option"
  camps :: "camp list"
  userSelection :: "(selection \<times> camp option) option"

text \<open>
  What the \<open>catch\<close> block of an operation receives. The first constructors are the
  \<open>Error\<close>s thrown by the client itself, with the message of the source:
  \<^item> \<open>MustBeLoggedIn\<close>: "User must be logged in to select a camp";
  \<^item> \<open>AlreadySelected\<close>: "You already have a camp selected. Please cancel your current selection first.";
  \<^item> \<open>CampNotFound\<close>: "Camp not found";
  \<^item> \<open>CampFull\<close>: "This camp is full";
  \<^item> \<open>NoActiveSelection\<close>: "No active camp selection found";
  \<^item> \<open>NotAuthorized\<close>: "Only volunteers can add camps", "Only volunteers can delete camps",
    "Only volunteers can be assigned to camps";
  \<^item> \<open>InvalidEmailOrPassword\<close>: "Invalid email or password".
  \<open>StoreError\<close> is an error object of the store, thrown again by the client.
\<close>

datatype failure =
    MustBeLoggedIn
  | AlreadySelected
  | CampNotFound
  | CampFull
  | NoActiveSelection
  | NotAuthorized
  | InvalidEmailOrPassword
  | StoreError store_error

text \<open>
  The object every operation returns: \<open>{ success: true, ... }\<close> with its data, or
  \<open>{ success: false, error }\<close>.
\<close>

datatype 'a result = Success 'a | Failure failure

fun success :: "'a result \<Rightarrow> bool" where
  "success (Success _) = True"
| "success (Failure _) = False"

fun error :: "'a result \<Rightarrow> failure option" where
  "error (Success _) = None"
| "error (Failure e) = Some e"

subsection \<open>AuthManager\<close>

text \<open>
  \<open>login(email, password)\<close>. The row of \<open>users\<close> has no password column, so removing
  the \<open>password\<close> property from the user before storing it changes nothing.
\<close>

definition login :: "bool \<Rightarrow> string \<Rightarrow> string \<Rightarrow> client \<Rightarrow> store \<Rightarrow> user result \<times> client" where
  "login down email password c st =
     (case getUserByEmail down email st of
        Inl e \<Rightarrow> (Failure InvalidEmailOrPassword, c)
      | Inr u \<Rightarrow> (Success u, c\<lparr> currentUser := Some u \<rparr>))"

definition logout :: "client \<Rightarrow> unit result \<times> client" where
  "logout c = (Success (), c\<lparr> currentUser := None \<rparr>)"

subsection \<open>CampManager\<close>

definition loadCamps :: "bool \<Rightarrow> client \<Rightarrow> store \<Rightarrow> camp list result \<times> client" where
  "loadCamps down c st =
     (case getCamps down st of
        Inl e \<Rightarrow> (Failure (StoreError e), c)
      | Inr cs \<Rightarrow> (Success cs, c\<lparr> camps := cs \<rparr>))"

definition loadUserSelection ::
  "bool \<Rightarrow> client \<Rightarrow> store \<Rightarrow> (selection \<times> camp option) option result \<times> client" where
  "loadUserSelection down c st =
     (case currentUser c of
        None \<Rightarrow> (Success None, c\<lparr> userSelection := None \<rparr>)
      | Some u \<Rightarrow>
         (case getUserCampSelection down (u_id u) st of
            Inl e \<Rightarrow>
              if e \<noteq> PGRST116 then (Failure (StoreError e), c)
              else (Success None, c\<lparr> userSelection := None \<rparr>)
          | Inr sel \<Rightarrow> (Success (Some sel), c\<lparr> userSelection := Some sel \<rparr>)))"

text \<open>
  The store calls of an operation are numbered; \<open>down k\<close> says that call \<open>k\<close> fails.
  In \<open>selectCamp\<close> and \<open>cancelSelection\<close>: 0 is the write on \<open>camp_selections\<close>,
  1 \<open>updateCamp\<close>, 2 \<open>getCamps\<close>, 3 \<open>getUserCampSelection\<close>.

  Both operations end with \<open>await this.loadCamps()\<close> and
  \<open>await this.loadUserSelection()\<close>, whose results they drop.
\<close>

definition reload :: "(nat \<Rightarrow> bool) \<Rightarrow> client \<Rightarrow> store \<Rightarrow> client" where
  "reload down c st =
     (let c1 = snd (loadCamps (down 2) c st)
      in snd (loadUserSelection (down 3) c1 st))"

definition selectCamp ::
  "(nat \<Rightarrow> bool) \<Rightarrow> timestamp \<Rightarrow> uuid \<Rightarrow> client \<Rightarrow> store
     \<Rightarrow> (selection \<times> camp option) result \<times> client \<times> store" where
  "selectCamp down now campId c st =
     (case currentUser c of
        None \<Rightarrow> (Failure MustBeLoggedIn, c, st)
      | Some u \<Rightarrow>
          if userSelection c \<noteq> None then (Failure AlreadySelected, c, st)
          else
            (case find (\<lambda>x. c_id x = campId) (camps c) of
               None \<Rightarrow> (Failure CampNotFound, c, st)
             | Some camp \<Rightarrow>
                 if beds camp \<le> 0 then (Failure CampFull, c, st)
                 else
                   (case createCampSelection (down 0) now (u_id u) campId Active st of
                      Inl e \<Rightarrow> (Failure (StoreError e), c, st)
                    | Inr (sel, st1) \<Rightarrow>
                        (case updateCamp (down 1) now campId (beds camp - 1) st1 of
                           Inl e \<Rightarrow> (Failure (StoreError e), c, st1)
                         | Inr (updatedCamp, st2) \<Rightarrow>
                             (Success (sel, updatedCamp), reload down c st2, st2)))))"

definition cancelSelection ::
  "(nat \<Rightarrow> bool) \<Rightarrow> timestamp \<Rightarrow> client \<Rightarrow> store \<Rightarrow> unit result \<times> client \<times> store" where
  "cancelSelection down now c st =
     (case (currentUser c, userSelection c) of
        (Some u, Some sel) \<Rightarrow>
          let campId = camp_id (fst sel);
              camp = find (\<lambda>x. c_id x = campId) (camps c)
          in
            (case cancelCampSelection (down 0) now (u_id u) st of
               Inl e \<Rightarrow> (Failure (StoreError e), c, st)
             | Inr st1 \<Rightarrow>
                 (case camp of
                    None \<Rightarrow> (Success (), reload down c st1, st1)
                  | Some cmp \<Rightarrow>
                      (case updateCamp (down 1) now campId (beds cmp + 1) st1 of
                         Inl e \<Rightarrow> (Failure (StoreError e), c, st1)
                       | Inr (_, st2) \<Rightarrow> (Success (), reload down c st2, st2))))
      | _ \<Rightarrow> (Failure NoActiveSelection, c, st))"

text \<open>
  \<open>selectCamp\<close> and \<open>cancelSelection\<close> above run their two writes one after the other
  on the same store. In the code the two writes are two awaited requests, and between
  them the store serves the requests of other browsers. The two parts of each
  operation, separately: the first runs up to its write on \<open>camp_selections\<close> and hands
  on the local variables that the second reads (\<open>selection\<close> and \<open>camp\<close>; \<open>campId\<close> and
  \<open>camp\<close>); the second starts at \<open>updateCamp\<close>, on the store as it is by then.
\<close>

definition selectCamp_insert ::
  "(nat \<Rightarrow> bool) \<Rightarrow> timestamp \<Rightarrow> uuid \<Rightarrow> client \<Rightarrow> store
     \<Rightarrow> failure + (selection \<times> camp) \<times> store" where
  "selectCamp_insert down now campId c st =
     (case currentUser c of
        None \<Rightarrow> Inl MustBeLoggedIn
      | Some u \<Rightarrow>
          if userSelection c \<noteq> None then Inl AlreadySelected
          else
            (case find (\<lambda>x. c_id x = campId) (camps c) of
               None \<Rightarrow> Inl CampNotFound
             | Some camp \<Rightarrow>
                 if beds camp \<le> 0 then Inl CampFull
                 else
                   (case createCampSelection (down 0) now (u_id u) campId Active st of
                      Inl e \<Rightarrow> Inl (StoreError e)
                    | Inr (sel, st1) \<Rightarrow> Inr ((sel, camp), st1))))"

definition selectCamp_update ::
  "(nat \<Rightarrow> bool) \<Rightarrow> timestamp \<Rightarrow> uuid \<Rightarrow> selection \<times> camp \<Rightarrow> client \<Rightarrow> store
     \<Rightarrow> (selection \<times> camp option) result \<times> client \<times> store" where
  "selectCamp_update down now campId vars c st1 =
     (case updateCamp (down 1) now campId (beds (snd vars) - 1) st1 of
        Inl e \<Rightarrow> (Failure (StoreError e), c, st1)
      | Inr (updatedCamp, st2) \<Rightarrow>
          (Success (fst vars, updatedCamp), reload down c st2, st2))"

definition cancelSelection_cancel ::
  "(nat \<Rightarrow> bool) \<Rightarrow> timestamp \<Rightarrow> client \<Rightarrow> store \<Rightarrow> failure + (uuid \<times> camp option) \<times> store" where
  "cancelSelection_cancel down now c st =
     (case (currentUser c, userSelection c) of
        (Some u, Some sel) \<Rightarrow>
          let campId = camp_id (fst sel);
              camp = find (\<lambda>x. c_id x = campId) (camps c)
          in
            (case cancelCampSelection (down 0) now (u_id u) st of
               Inl e \<Rightarrow> Inl (StoreError e)
             | Inr st1 \<Rightarrow> Inr ((campId, camp), st1))
      | _ \<Rightarrow> Inl NoActiveSelection)"

definition cancelSelection_update ::
  "(nat \<Rightarrow> bool) \<Rightarrow> timestamp \<Rightarrow> uuid \<times> camp option \<Rightarrow> client \<Rightarrow> store
     \<Rightarrow> unit result \<times> client \<times> store" where
  "cancelSelection_update down now vars c st1 =
     (case snd vars of
        None \<Rightarrow> (Success (), reload down c st1, st1)
      | Some cmp \<Rightarrow>
          (case updateCamp (down 1) now (fst vars) (beds cmp + 1) st1 of
             Inl e \<Rightarrow> (Failure (StoreError e), c, st1)
           | Inr (_, st2) \<Rightarrow> (Success (), reload down c st2, st2)))"

text \<open>In \<open>addCamp\<close> and \<open>deleteCamp\<close>: call 0 is the write, call 1 \<open>getCamps\<close>.\<close>

definition addCamp ::
  "(nat \<Rightarrow> bool) \<Rightarrow> timestamp \<Rightarrow> camp_data \<Rightarrow> client \<Rightarrow> store \<Rightarrow> camp result \<times> client \<times> store" where
  "addCamp down now campData c st =
     (case currentUser c of
        None \<Rightarrow> (Failure NotAuthorized, c, st)
      | Some u \<Rightarrow>
          if u_role u \<noteq> Volunteer then (Failure NotAuthorized, c, st)
          else
            let newCampData = camp_data.extend campData
                  \<lparr> nc_added_by = u_id u, nc_type = VolunteerAdded,
                    nc_original_beds = cd_beds campData \<rparr>
            in
              (case createCamp (down 0) now newCampData st of
                 Inl e \<Rightarrow> (Failure (StoreError e), c, st)
               | Inr (newCamp, st1) \<Rightarrow>
                   (Success newCamp, snd (loadCamps (down 1) c st1), st1)))"

definition deleteCamp ::
  "(nat \<Rightarrow> bool) \<Rightarrow> uuid \<Rightarrow> client \<Rightarrow> store \<Rightarrow> unit result \<times> client \<times> store" where
  "deleteCamp down campId c st =
     (case currentUser c of
        None \<Rightarrow> (Failure NotAuthorized, c, st)
      | Some u \<Rightarrow>
          if u_role u \<noteq> Volunteer then (Failure NotAuthorized, c, st)
          else
            (case deleteCamp_db (down 0) campId st of
               Inl e \<Rightarrow> (Failure (StoreError e), c, st)
             | Inr st1 \<Rightarrow> (Success (), snd (loadCamps (down 1) c st1), st1)))"

definition addVolunteerAssignment ::
  "(nat \<Rightarrow> bool) \<Rightarrow> timestamp \<Rightarrow> uuid \<Rightarrow> client \<Rightarrow> store
     \<Rightarrow> assignment result \<times> client \<times> store" where
  "addVolunteerAssignment down now campId c st =
     (case currentUser c of
        None \<Rightarrow> (Failure NotAuthorized, c, st)
      | Some u \<Rightarrow>
          if u_role u \<noteq> Volunteer then (Failure NotAuthorized, c, st)
          else
            (case createVolunteerAssignment (down 0) now (u_id u) campId st of
               Inl e \<Rightarrow> (Failure (StoreError e), c, st)
             | Inr (a, st1) \<Rightarrow> (Success a, c, st1)))"

definition getVolunteerHistory ::
  "(nat \<Rightarrow> bool) \<Rightarrow> client \<Rightarrow> store \<Rightarrow> (assignment \<times> camp option) list result" where
  "getVolunteerHistory down c st =
     (case currentUser c of
        None \<Rightarrow> Success []
      | Some u \<Rightarrow>
          if u_role u \<noteq> Volunteer then Success []
          else
            (case getVolunteerAssignments (down 0) (u_id u) st of
               Inl e \<Rightarrow> Failure (StoreError e)
             | Inr as \<Rightarrow> Success as))"

section \<open>Exceptions\<close>

text \<open>
  The operations above give a failure where the source throws and catches. Here the
  \<open>throw\<close>, the \<open>try\<close> and the \<open>catch\<close> are written out, so that an exception that
  leaves an operation is a value of the model.

  A thrown value is \<open>null\<close> or \<open>undefined\<close>, or any other value; of the latter the model
  keeps what its property \<open>message\<close> reads: the message of an \<open>Error\<close> made by the
  operation or of an error object of the store, the message of a \<open>TypeError\<close> raised
  by the runtime, or whatever a value thrown by a subscriber has there (nothing, for
  a value with no such property).

  The calls of \<open>dbHelpers\<close> return \<open>{ data, error }\<close> and do not throw: the Supabase
  client reports a failed request in \<open>error\<close>. \<open>console.error\<close> and
  \<open>authManager.getCurrentUser()\<close> do not throw either.
\<close>

datatype message =
    ErrorMessage failure
  | TypeErrorMessage
  | OtherMessage "string option"

datatype thrown = Nullish | Object message

text \<open>A call returns a value or throws (for an \<open>async\<close> function: its promise is rejected).\<close>

datatype 'a completion = Returns 'a | Throws thrown


text \<open>The returned object: \<open>{ success: true, ... }\<close> or \<open>{ success: false, error: error.message }\<close>.\<close>

datatype 'a js_result = Succeeded 'a | Failed message


text \<open>
  \<open>subscribe(callback)\<close> adds a callback to \<open>this.subscribers\<close>; \<open>notify()\<close> calls them in
  the order they were added. Of a callback the model keeps whether it returns or
  throws; the first one that throws ends \<open>notify\<close>.
\<close>

datatype callback = Return | Throw thrown

fun notify :: "callback list \<Rightarrow> thrown option" where
  "notify [] = None"
| "notify (Return # cs) = notify cs"
| "notify (Throw t # cs) = Some t"

text \<open>\<open>throw new Error(...)\<close>, and \<open>throw error\<close> of an error object of the store.\<close>

definition new_Error :: "failure \<Rightarrow> thrown" where
  "new_Error f = Object (ErrorMessage f)"

definition error_object :: "store_error \<Rightarrow> thrown" where
  "error_object e = Object (ErrorMessage (StoreError e))"

text \<open>
  Every operation ends with
  \<open>catch (error) { console.error(...); return { success: false, error: error.message } }\<close>;
  \<open>e\<close> is the caught value. Reading a property of \<open>null\<close> or \<open>undefined\<close> raises a \<open>TypeError\<close>, which leaves the
  operation.
\<close>

definition catch_block :: "thrown \<Rightarrow> 'a js_result completion" where
  "catch_block e =
     (case e of
        Nullish \<Rightarrow> Throws (Object TypeErrorMessage)
      | Object m \<Rightarrow> Returns (Failed m))"

definition try_catch :: "'a js_result completion \<times> 's \<Rightarrow> 'a js_result completion \<times> 's" where
  "try_catch body =
     (case body of
        (Returns r, s) \<Rightarrow> (Returns r, s)
      | (Throws e, s) \<Rightarrow> (catch_block e, s))"

text \<open>
  In \<open>loadCamps\<close> and \<open>loadUserSelection\<close> the field is assigned before \<open>notify()\<close> runs,
  inside the \<open>try\<close> block.
\<close>

definition loadCamps_js ::
  "callback list \<Rightarrow> bool \<Rightarrow> client \<Rightarrow> store \<Rightarrow> camp list js_result completion \<times> client" where
  "loadCamps_js subs down c st =
     try_catch
       (case getCamps down st of
          Inl e \<Rightarrow> (Throws (error_object e), c)
        | Inr cs \<Rightarrow>
            let c1 = c\<lparr> camps := cs \<rparr>
            in (case notify subs of
                  Some t \<Rightarrow> (Throws t, c1)
                | None \<Rightarrow> (Returns (Succeeded cs), c1)))"





text \<open>
  \<open>addCamp(campData)\<close>: the argument is an object, or \<open>null\<close> or \<open>undefined\<close> (\<open>None\<close>); then
  the spread \<open>...campData\<close> adds nothing and reading \<open>campData.beds\<close> raises a
  \<open>TypeError\<close>, after the check of the role.
\<close>

definition addCamp_js ::
  "callback list \<Rightarrow> (nat \<Rightarrow> bool) \<Rightarrow> timestamp \<Rightarrow> camp_data option \<Rightarrow> client \<Rightarrow> store
     \<Rightarrow> camp js_result completion \<times> client \<times> store" where
  "addCamp_js subs down now campData c st =
     try_catch
       (case currentUser c of
          None \<Rightarrow> (Throws (new_Error NotAuthorized), c, st)
        | Some u \<Rightarrow>
            if u_role u \<noteq> Volunteer then (Throws (new_Error NotAuthorized), c, st)
            else
              (case campData of
                 None \<Rightarrow> (Throws (Object TypeErrorMessage), c, st)
               | Some d \<Rightarrow>
                   let newCampData = camp_data.extend d
                         \<lparr> nc_added_by = u_id u, nc_type = VolunteerAdded,
                           nc_original_beds = cd_beds d \<rparr>
                   in
                     (case createCamp (down 0) now newCampData st of
                        Inl e \<Rightarrow> (Throws (error_object e), c, st)
                      | Inr (newCamp, st1) \<Rightarrow>
                          (case loadCamps_js subs (down 1) c st1 of
                             (Throws t, c') \<Rightarrow> (Throws t, c', st1)
                           | (Returns _, c') \<Rightarrow> (Returns (Succeeded newCamp), c', st1)))))"




section \<open>Several browsers on one store\<close>

text \<open>
  Every browser has its own \<open>authManager\<close> and \<open>campManager\<close>; all of them talk to the
  same store. An event is one call of a public operation in one browser, with the
  store calls of that one call served one after the other. The realtime
  subscriptions of \<open>CampManager\<close> call \<open>loadCamps\<close> and \<open>loadUserSelection\<close> at some
  later moment: they are the events \<open>LoadCamps\<close> and \<open>LoadUserSelection\<close>.
\<close>

datatype op =
    Login string string
  | Logout
  | LoadCamps
  | LoadUserSelection
  | SelectCamp uuid
  | CancelSelection
  | AddCamp camp_data
  | DeleteCamp uuid
  | AddVolunteerAssignment uuid
  | GetVolunteerHistory

fun perform :: "(nat \<Rightarrow> bool) \<Rightarrow> timestamp \<Rightarrow> op \<Rightarrow> client \<Rightarrow> store \<Rightarrow> failure option \<times> client \<times> store" where
  "perform down now (Login email password) c st =
     (let (r, c') = login (down 0) email password c st in (error r, c', st))"
| "perform down now Logout c st =
     (let (r, c') = logout c in (error r, c', st))"
| "perform down now LoadCamps c st =
     (let (r, c') = loadCamps (down 0) c st in (error r, c', st))"
| "perform down now LoadUserSelection c st =
     (let (r, c') = loadUserSelection (down 0) c st in (error r, c', st))"
| "perform down now (SelectCamp campId) c st =
     (let (r, c', st') = selectCamp down now campId c st in (error r, c', st'))"
| "perform down now CancelSelection c st =
     (let (r, c', st') = cancelSelection down now c st in (error r, c', st'))"
| "perform down now (AddCamp campData) c st =
     (let (r, c', st') = addCamp down now campData c st in (error r, c', st'))"
| "perform down now (DeleteCamp campId) c st =
     (let (r, c', st') = deleteCamp down campId c st in (error r, c', st'))"
| "perform down now (AddVolunteerAssignment campId) c st =
     (let (r, c', st') = addVolunteerAssignment down now campId c st in (error r, c', st'))"
| "perform down now GetVolunteerHistory c st =
     (error (getVolunteerHistory down c st), c, st)"

record system =
  clients :: "nat \<Rightarrow> client"
  db :: store

datatype event = Event nat "nat \<Rightarrow> bool" timestamp op

fun sys_step :: "system \<Rightarrow> event \<Rightarrow> system" where
  "sys_step s (Event i down now opn) =
     (let (r, c', st') = perform down now opn (clients s i) (db s)
      in \<lparr> clients = (clients s)(i := c'), db = st' \<rparr>)"

definition run :: "system \<Rightarrow> event list \<Rightarrow> system" where
  "run s evs = foldl sys_step s evs"

text \<open>What the caller of an event gets back: the error of the result, if any.\<close>

fun outcome :: "system \<Rightarrow> event \<Rightarrow> failure option" where
  "outcome s (Event i down now opn) = fst (perform down now opn (clients s i) (db s))"

definition no_faults :: "nat \<Rightarrow> bool" where
  "no_faults = (\<lambda>k. False)"

definition update_fails :: "nat \<Rightarrow> bool" where
  "update_fails = (\<lambda>k. k = 1)"

text \<open>The state of a browser after the constructors, with nothing in local storage.\<close>

definition new_client :: client where
  "new_client = \<lparr> currentUser = None, camps = [], userSelection = None \<rparr>"

section \<open>Properties of states\<close>

text \<open>At most one active selection row per user.\<close>

definition single_active :: "store \<Rightarrow> bool" where
  "single_active st =
     distinct (map user_id (filter (\<lambda>s. status s = Active) (tbl_camp_selections st)))"

definition active_of :: "store \<Rightarrow> uuid \<Rightarrow> selection list" where
  "active_of st uid = filter (\<lambda>s. user_id s = uid \<and> status s = Active) (tbl_camp_selections st)"

text \<open>The beds counts stored for a camp id (one entry per row with that id).\<close>

definition camp_beds :: "store \<Rightarrow> uuid \<Rightarrow> int list" where
  "camp_beds st cid = map beds (filter (\<lambda>x. c_id x = cid) (tbl_camps st))"

text \<open>The browser holds what \<open>loadCamps\<close> would load now.\<close>

definition camps_loaded :: "client \<Rightarrow> store \<Rightarrow> bool" where
  "camps_loaded c st = (camps c = rev (sort_key c_created_at (tbl_camps st)))"

text \<open>
  The row that \<open>createCampSelection\<close> inserts for an active selection, the update
  that \<open>updateCamp\<close> applies to each row of \<open>camps\<close>, and the update that
  \<open>cancelCampSelection\<close> applies to each row of \<open>camp_selections\<close>.
\<close>

definition new_selection :: "store \<Rightarrow> timestamp \<Rightarrow> uuid \<Rightarrow> uuid \<Rightarrow> selection" where
  "new_selection st now uid cid =
     \<lparr> s_id = next_uuid st, user_id = uid, camp_id = cid, status = Active,
       selected_at = now, cancelled_at = None \<rparr>"

definition set_beds :: "timestamp \<Rightarrow> uuid \<Rightarrow> int \<Rightarrow> camp \<Rightarrow> camp" where
  "set_beds now cid b x = (if c_id x = cid then x\<lparr> beds := b, c_updated_at := now \<rparr> else x)"

definition cancel_row :: "timestamp \<Rightarrow> uuid \<Rightarrow> selection \<Rightarrow> selection" where
  "cancel_row now uid s =
     (if user_id s = uid \<and> status s = Active
      then s\<lparr> status := Cancelled, cancelled_at := Some now \<rparr> else s)"

text \<open>The browser holds what \<open>loadUserSelection\<close> would load now for its user.\<close>

definition selection_loaded :: "client \<Rightarrow> store \<Rightarrow> bool" where
  "selection_loaded c st =
     (case currentUser c of
        None \<Rightarrow> True
      | Some u \<Rightarrow>
          userSelection c =
            (case active_of st (u_id u) of
               [s] \<Rightarrow> Some (s, find (\<lambda>x. c_id x = camp_id s) (tbl_camps st))
             | _ \<Rightarrow> None))"

text \<open>
  Beds and selections agree: for every camp, the beds taken off its capacity are as
  many as the active selections of that camp.
\<close>

definition active_on :: "store \<Rightarrow> uuid \<Rightarrow> selection list" where
  "active_on st cid = filter (\<lambda>s. camp_id s = cid \<and> status s = Active) (tbl_camp_selections st)"

definition beds_agree :: "store \<Rightarrow> bool" where
  "beds_agree st =
     (\<forall>x \<in> set (tbl_camps st). beds x + int (length (active_on st (c_id x))) = original_beds x)"

text \<open>Every camp id in use has been generated: it is below the counter.\<close>

definition ids_generated :: "store \<Rightarrow> bool" where
  "ids_generated st =
     ((\<forall>x \<in> set (tbl_camps st). c_id x < next_uuid st) \<and>
      (\<forall>s \<in> set (tbl_camp_selections st). camp_id s < next_uuid st))"







section \<open>Example states\<close>

text \<open>
  A store with one camp of a single bed and three registered users: two refugees and
  a volunteer.
\<close>

definition camp_C :: camp where
  "camp_C = \<lparr> c_id = 0, c_name = ''C'', beds = 1, original_beds = 1, resources = [''Food'', ''Water''],
              contact = None, ambulance = ''No'', added_by = None, c_type = Default,
              c_created_at = 0, c_updated_at = 0 \<rparr>"

definition user_A :: user where
  "user_A = \<lparr> u_id = 1, u_name = ''A'', u_email = ''a@example.org'', u_role = Refugee \<rparr>"

definition user_B :: user where
  "user_B = \<lparr> u_id = 2, u_name = ''B'', u_email = ''b@example.org'', u_role = Refugee \<rparr>"

definition user_V :: user where
  "user_V = \<lparr> u_id = 3, u_name = ''V'', u_email = ''v@example.org'', u_role = Volunteer \<rparr>"

definition store_C :: store where
  "store_C = \<lparr> tbl_users = [user_A, user_B, user_V], tbl_camps = [camp_C],
               tbl_camp_selections = [], tbl_volunteer_assignments = [], next_uuid = 4 \<rparr>"

definition system_C :: system where
  "system_C = \<lparr> clients = (\<lambda>i. new_client), db = store_C \<rparr>"

definition client_A :: client where
  "client_A = \<lparr> currentUser = Some user_A, camps = [camp_C], userSelection = None \<rparr>"

definition client_V :: client where
  "client_V = \<lparr> currentUser = Some user_V, camps = [camp_C], userSelection = None \<rparr>"

definition selection_A :: selection where
  "selection_A = \<lparr> s_id = 4, user_id = 1, camp_id = 0, status = Active, selected_at = 3,
                   cancelled_at = None \<rparr>"

definition store_C_selected :: store where
  "store_C_selected = store_C\<lparr> tbl_camp_selections := [selection_A], next_uuid := 5 \<rparr>"

definition camp_data_D :: camp_data where
  "camp_data_D = \<lparr> cd_name = ''D'', cd_beds = 7, cd_resources = [''Blankets''],
                    cd_contact = None, cd_ambulance = ''Yes'' \<rparr>"

definition camp_D :: camp where
  "camp_D = \<lparr> c_id = 4, c_name = ''D'', beds = 7, original_beds = 7, resources = [''Blankets''],
              contact = None, ambulance = ''Yes'', added_by = Some 3, c_type = VolunteerAdded,
              c_created_at = 5, c_updated_at = 5 \<rparr>"

definition client_B :: client where
  "client_B = \<lparr> currentUser = Some user_B, camps = [camp_C], userSelection = None \<rparr>"

text \<open>
  A and B select C at the same time, each from a browser that has loaded C with its
  one bed: the store serves A's insert, B's insert, A's update, B's update. The value
  is the two results and the store at the end.
\<close>

definition interleaved_selections ::
  "((selection \<times> camp option) result \<times> (selection \<times> camp option) result \<times> store) option" where
  "interleaved_selections =
     (case selectCamp_insert no_faults 3 0 client_A store_C of
        Inl f \<Rightarrow> None
      | Inr (varsA, st1) \<Rightarrow>
          (case selectCamp_insert no_faults 4 0 client_B st1 of
             Inl f \<Rightarrow> None
           | Inr (varsB, st2) \<Rightarrow>
               (case selectCamp_update no_faults 5 0 varsA client_A st2 of
                  (rA, cA, st3) \<Rightarrow>
                    (case selectCamp_update no_faults 6 0 varsB client_B st3 of
                       (rB, cB, st4) \<Rightarrow> Some (rA, rB, st4)))))"

text \<open>
  Camp C with as many beds as the column can hold, A holding a selection of it, and
  A's browser showing both.
\<close>

definition camp_C_max :: camp where
  "camp_C_max = camp_C\<lparr> beds := 2147483647, original_beds := 2147483647 \<rparr>"

definition store_C_max :: store where
  "store_C_max = store_C_selected\<lparr> tbl_camps := [camp_C_max] \<rparr>"

definition client_A_max :: client where
  "client_A_max = \<lparr> currentUser = Some user_A, camps = [camp_C_max],
                     userSelection = Some (selection_A, Some camp_C_max) \<rparr>"

text \<open>
  Browser 0 is used by A and browser 1 by B. Both log in and load the camps.
\<close>

definition logged_in_A :: "event list" where
  "logged_in_A =
     [Event 0 no_faults 1 (Login ''a@example.org'' ''secret''), Event 0 no_faults 2 LoadCamps]"

definition both_browsers_loaded :: "event list" where
  "both_browsers_loaded = logged_in_A @
     [Event 1 no_faults 3 (Login ''b@example.org'' ''secret''), Event 1 no_faults 4 LoadCamps]"

text \<open>A takes the only bed of C; then B, whose browser still shows one bed, selects C.\<close>

definition last_bed_taken :: "event list" where
  "last_bed_taken = both_browsers_loaded @ [Event 0 no_faults 5 (SelectCamp 0)]"

definition overbooked :: "event list" where
  "overbooked = last_bed_taken @ [Event 1 no_faults 6 (SelectCamp 0)]"




text \<open>
  A state in which A holds the bed of C, and every browser shows it.
\<close>

definition camp_C_taken :: camp where
  "camp_C_taken = camp_C\<lparr> beds := 0 \<rparr>"

definition system_C_taken :: system where
  "system_C_taken =
     \<lparr> clients = (\<lambda>i. \<lparr> currentUser = Some user_A, camps = [camp_C_taken],
                          userSelection = Some (selection_A, Some camp_C_taken) \<rparr>),
       db = store_C\<lparr> tbl_camps := [camp_C_taken], tbl_camp_selections := [selection_A],
                     next_uuid := 5 \<rparr> \<rparr>"

text \<open>A selects C, cancels, and selects C again.\<close>

definition round_trip :: "event list" where
  "round_trip = logged_in_A @
     [Event 0 no_faults 3 (SelectCamp 0), Event 0 no_faults 4 CancelSelection,
      Event 0 no_faults 5 (SelectCamp 0)]"

text \<open>
  A selects C and the store fails on \<open>updateCamp\<close>; later the browser loads the
  user's selection (page load or subscription).
\<close>

definition half_selected :: "event list" where
  "half_selected = logged_in_A @ [Event 0 update_fails 3 (SelectCamp 0)]"

definition half_selected_reloaded :: "event list" where
  "half_selected_reloaded = half_selected @ [Event 0 no_faults 4 LoadUserSelection]"

section \<open>Auxiliary facts\<close>

lemma filter_unique_key:
  "distinct (map f xs) \<Longrightarrow> x \<in> set xs \<Longrightarrow> filter (\<lambda>y. f y = f x) xs = [x]"
proof (induction xs)
  case Nil
  then show ?case by simp
next
  case (Cons a xs)
  show ?case
  proof (cases "a = x")
    case True
    with Cons.prems have "\<forall>y \<in> set xs. f y \<noteq> f x" by (auto simp: image_iff)
    then have "filter (\<lambda>y. f y = f x) xs = []" by (simp add: filter_empty_conv)
    with True show ?thesis by simp
  next
    case False
    with Cons.prems have "x \<in> set xs" "f a \<noteq> f x" "distinct (map f xs)" by (auto simp: image_iff)
    with Cons.IH show ?thesis by simp
  qed
qed

lemma createCampSelection_trigger:
  assumes "active_of st uid \<noteq> []" and "next_uuid st \<notin> s_id ` set (tbl_camp_selections st)"
  shows "createCampSelection False now uid cid Active st = Inl TriggerException"
proof -
  from assms(1) obtain s where s: "s \<in> set (tbl_camp_selections st)" "user_id s = uid" "status s = Active"
    by (auto simp: active_of_def filter_empty_conv)
  with assms(2) have "s_id s \<noteq> next_uuid st" by force
  with s show ?thesis
    by (auto simp: createCampSelection_def check_single_active_selection_def Let_def)
qed

lemma createCampSelection_foreign_key:
  assumes "active_of st uid = []" and "\<not> camp_exists st cid"
  shows "createCampSelection False now uid cid Active st = Inl ForeignKeyViolation"
  using assms
  by (auto simp: createCampSelection_def check_single_active_selection_def Let_def active_of_def
        filter_empty_conv)

section \<open>The claims\<close>

text \<open>
  C4, as the code has it. \<open>selectCamp\<close> makes its checks on what the browser has
  loaded, in this order, for a logged-in user: it fails with \<open>AlreadySelected\<close> when
  \<open>userSelection\<close> is set; otherwise with \<open>CampNotFound\<close> when no loaded camp has the
  id; otherwise with \<open>CampFull\<close> when the loaded camp has \<open>beds \<le> 0\<close>. In each case
  no store call is made: store and browser state are unchanged. When the loaded state
  is out of date, an active selection of the user in the store is still refused by the
  trigger, and a camp missing from the store by the foreign key, again without any
  change; the number of beds in the store is not checked.
\<close>

theorem selectCamp_checks:
  "currentUser c = Some u \<Longrightarrow>
   (userSelection c \<noteq> None \<longrightarrow>
      selectCamp down now campId c st = (Failure AlreadySelected, c, st)) \<and>
   (userSelection c = None \<and> find (\<lambda>x. c_id x = campId) (camps c) = None \<longrightarrow>
      selectCamp down now campId c st = (Failure CampNotFound, c, st)) \<and>
   (userSelection c = None \<and> find (\<lambda>x. c_id x = campId) (camps c) = Some camp \<and> beds camp \<le> 0 \<longrightarrow>
      selectCamp down now campId c st = (Failure CampFull, c, st)) \<and>
   (userSelection c = None \<and> find (\<lambda>x. c_id x = campId) (camps c) = Some camp \<and> 0 < beds camp \<and>
    \<not> down 0 \<and> active_of st (u_id u) \<noteq> [] \<and> next_uuid st \<notin> s_id ` set (tbl_camp_selections st) \<longrightarrow>
      selectCamp down now campId c st = (Failure (StoreError TriggerException), c, st)) \<and>
   (userSelection c = None \<and> find (\<lambda>x. c_id x = campId) (camps c) = Some camp \<and> 0 < beds camp \<and>
    \<not> down 0 \<and> active_of st (u_id u) = [] \<and> \<not> camp_exists st campId \<longrightarrow>
      selectCamp down now campId c st = (Failure (StoreError ForeignKeyViolation), c, st))"
  by (simp add: selectCamp_def createCampSelection_trigger createCampSelection_foreign_key)

theorem selectCamp_checks_witness:
  "currentUser client_A = Some user_A \<and>
   selectCamp no_faults 5 0 (client_A\<lparr> userSelection := Some (selection_A, None) \<rparr>) store_C_selected
     = (Failure AlreadySelected, client_A\<lparr> userSelection := Some (selection_A, None) \<rparr>, store_C_selected) \<and>
   selectCamp no_faults 5 9 client_A store_C = (Failure CampNotFound, client_A, store_C) \<and>
   selectCamp no_faults 5 0 (client_A\<lparr> camps := [camp_C\<lparr> beds := 0 \<rparr>] \<rparr>) store_C
     = (Failure CampFull, client_A\<lparr> camps := [camp_C\<lparr> beds := 0 \<rparr>] \<rparr>, store_C) \<and>
   selectCamp no_faults 5 0 client_A store_C_selected
     = (Failure (StoreError TriggerException), client_A, store_C_selected) \<and>
   selectCamp no_faults 5 0 client_A (store_C\<lparr> tbl_camps := [] \<rparr>)
     = (Failure (StoreError ForeignKeyViolation), client_A, store_C\<lparr> tbl_camps := [] \<rparr>)"
proof -
  have u: "currentUser client_A = Some user_A"
    by (simp add: client_A_def)
  have u1: "currentUser (client_A\<lparr> userSelection := Some (selection_A, None) \<rparr>) = Some user_A"
    by (simp add: client_A_def)
  have u3: "currentUser (client_A\<lparr> camps := [camp_C\<lparr> beds := 0 \<rparr>] \<rparr>) = Some user_A"
    by (simp add: client_A_def)
  have 1: "selectCamp no_faults 5 0 (client_A\<lparr> userSelection := Some (selection_A, None) \<rparr>) store_C_selected
     = (Failure AlreadySelected, client_A\<lparr> userSelection := Some (selection_A, None) \<rparr>, store_C_selected)"
    using selectCamp_checks [OF u1, where down = no_faults and now = 5 and campId = 0 and st = store_C_selected and camp = camp_C] by simp
  have 2: "selectCamp no_faults 5 9 client_A store_C = (Failure CampNotFound, client_A, store_C)"
    using selectCamp_checks [OF u, where down = no_faults and now = 5 and campId = 9 and st = store_C and camp = camp_C]
    by (simp add: client_A_def camp_C_def)
  have 3: "selectCamp no_faults 5 0 (client_A\<lparr> camps := [camp_C\<lparr> beds := 0 \<rparr>] \<rparr>) store_C
     = (Failure CampFull, client_A\<lparr> camps := [camp_C\<lparr> beds := 0 \<rparr>] \<rparr>, store_C)"
    using selectCamp_checks [OF u3, where down = no_faults and now = 5 and campId = 0 and st = store_C and camp = "camp_C\<lparr> beds := 0 \<rparr>"]
    by (simp add: client_A_def camp_C_def)
  have 4: "selectCamp no_faults 5 0 client_A store_C_selected
     = (Failure (StoreError TriggerException), client_A, store_C_selected)"
    using selectCamp_checks [OF u, where down = no_faults and now = 5 and campId = 0 and st = store_C_selected and camp = camp_C]
    by (simp add: client_A_def camp_C_def no_faults_def store_C_selected_def store_C_def
          selection_A_def active_of_def user_A_def)
  have 5: "selectCamp no_faults 5 0 client_A (store_C\<lparr> tbl_camps := [] \<rparr>)
     = (Failure (StoreError ForeignKeyViolation), client_A, store_C\<lparr> tbl_camps := [] \<rparr>)"
    using selectCamp_checks [OF u, where down = no_faults and now = 5 and campId = 0 and st = "store_C\<lparr> tbl_camps := [] \<rparr>" and camp = camp_C]
    by (simp add: client_A_def camp_C_def no_faults_def store_C_def active_of_def camp_exists_def)
  from u 1 2 3 4 5 show ?thesis by blast
qed

text \<open>
  C4 as stated fails. Camp C has one bed and both browsers have loaded it. After A's
  selection the store holds \<open>beds = 0\<close> for C; B's browser still shows one bed, so B's
  \<open>selectCamp\<close> succeeds: it creates a second active row and writes \<open>beds = 0\<close>.
\<close>

theorem selectCamp_full_camp_counterexample:
  "map beds (tbl_camps (db (run system_C last_bed_taken))) = [0] \<and>
   outcome (run system_C last_bed_taken) (Event 1 no_faults 6 (SelectCamp 0)) = None \<and>
   map beds (tbl_camps (db (run system_C overbooked))) = [0] \<and>
   map user_id (active_on (db (run system_C overbooked)) 0) = [1, 2]"
  by code_simp

text \<open>
  C9. \<open>login\<close> does not look at the password: two calls that differ in the password
  only return the same result and the same browser state; for a registered email
  (emails are unique in \<open>users\<close>) both succeed with that user, whatever the password.
\<close>

theorem login_ignores_password:
  "login down email p1 c st = login down email p2 c st \<and>
   (distinct (map u_email (tbl_users st)) \<longrightarrow> u \<in> set (tbl_users st) \<longrightarrow>
      login False (u_email u) p1 c st = (Success u, c\<lparr> currentUser := Some u \<rparr>) \<and>
      login False (u_email u) p2 c st = (Success u, c\<lparr> currentUser := Some u \<rparr>))"
  by (simp add: login_def getUserByEmail_def filter_unique_key)

theorem login_ignores_password_witness:
  "distinct (map u_email (tbl_users store_C)) \<and> user_A \<in> set (tbl_users store_C) \<and>
   login False ''a@example.org'' ''right'' new_client store_C
     = login False ''a@example.org'' ''wrong'' new_client store_C \<and>
   login False (u_email user_A) ''wrong'' new_client store_C
     = (Success user_A, new_client\<lparr> currentUser := Some user_A \<rparr>)"
proof -
  have d: "distinct (map u_email (tbl_users store_C))"
    by (simp add: store_C_def user_A_def user_B_def user_V_def)
  have m: "user_A \<in> set (tbl_users store_C)"
    by (simp add: store_C_def)
  from login_ignores_password [of False "''a@example.org''" "''right''" new_client store_C "''wrong''" user_A] d m
  show ?thesis by simp
qed

text \<open>
  C7. \<open>addCamp\<close> succeeds only when the current user is a volunteer; otherwise it
  fails with \<open>NotAuthorized\<close> and changes nothing. The camp it creates has
  \<open>original_beds\<close> and \<open>beds\<close> equal to the \<open>beds\<close> value supplied, and is the one
  row added to \<open>camps\<close>. A failed call leaves the store as it was.
\<close>

theorem addCamp_volunteer_only:
  "addCamp down now campData c st = (r, c', st') \<Longrightarrow>
     (success r \<longrightarrow> (\<exists>u. currentUser c = Some u \<and> u_role u = Volunteer)) \<and>
     (\<not> (\<exists>u. currentUser c = Some u \<and> u_role u = Volunteer) \<longrightarrow>
        r = Failure NotAuthorized \<and> c' = c \<and> st' = st) \<and>
     (\<forall>row. r = Success row \<longrightarrow>
        original_beds row = cd_beds campData \<and> beds row = cd_beds campData \<and>
        tbl_camps st' = tbl_camps st @ [row]) \<and>
     (\<not> success r \<longrightarrow> st' = st)"
  by (auto simp: addCamp_def createCamp_def Let_def camp_data.defs split: option.splits if_splits sum.splits)

theorem addCamp_volunteer_only_witness:
  "fst (addCamp no_faults 5 camp_data_D client_V store_C) = Success camp_D \<and>
   original_beds camp_D = cd_beds camp_data_D \<and>
   tbl_camps (snd (snd (addCamp no_faults 5 camp_data_D client_V store_C))) = [camp_C, camp_D] \<and>
   addCamp no_faults 5 camp_data_D client_A store_C = (Failure NotAuthorized, client_A, store_C)"
proof -
  have v: "addCamp no_faults 5 camp_data_D client_V store_C =
      (fst (addCamp no_faults 5 camp_data_D client_V store_C),
       fst (snd (addCamp no_faults 5 camp_data_D client_V store_C)),
       snd (snd (addCamp no_faults 5 camp_data_D client_V store_C)))"
    by simp
  have a: "addCamp no_faults 5 camp_data_D client_A store_C =
      (fst (addCamp no_faults 5 camp_data_D client_A store_C),
       fst (snd (addCamp no_faults 5 camp_data_D client_A store_C)),
       snd (snd (addCamp no_faults 5 camp_data_D client_A store_C)))"
    by simp
  have r: "fst (addCamp no_faults 5 camp_data_D client_V store_C) = Success camp_D"
    by (simp add: addCamp_def createCamp_def Let_def camp_data.defs client_V_def user_V_def
          store_C_def user_exists_def user_A_def user_B_def no_faults_def camp_D_def camp_data_D_def
          in_integer_range_def)
  have na: "\<not> (\<exists>u. currentUser client_A = Some u \<and> u_role u = Volunteer)"
    by (simp add: client_A_def user_A_def)
  from addCamp_volunteer_only [OF v] r
  have 1: "original_beds camp_D = cd_beds camp_data_D \<and>
           tbl_camps (snd (snd (addCamp no_faults 5 camp_data_D client_V store_C))) = [camp_C, camp_D]"
    by (simp add: store_C_def)
  from addCamp_volunteer_only [OF a] na
  have 2: "addCamp no_faults 5 camp_data_D client_A store_C = (Failure NotAuthorized, client_A, store_C)"
    by (metis a)
  from r 1 2 show ?thesis by simp
qed

subsection \<open>Writes on the store keep one active selection per user\<close>

lemma unique_imp_distinct_active:
  "unique_user_status sels \<Longrightarrow> distinct (map user_id (filter (\<lambda>s. status s = Active) sels))"
  unfolding unique_user_status_def
  by (induction sels) (auto simp: image_iff)

lemma distinct_active_at_most_one:
  "distinct (map user_id (filter (\<lambda>s. status s = Active) sels)) \<Longrightarrow>
   length (filter (\<lambda>s. user_id s = uid \<and> status s = Active) sels) \<le> 1"
proof (induction sels)
  case Nil
  then show ?case by simp
next
  case (Cons a sels)
  show ?case
  proof (cases "user_id a = uid \<and> status a = Active")
    case True
    with Cons.prems have "\<forall>s \<in> set sels. \<not> (user_id s = uid \<and> status s = Active)"
      by (auto simp: image_iff)
    then have "filter (\<lambda>s. user_id s = uid \<and> status s = Active) sels = []"
      by (simp add: filter_empty_conv)
    with True show ?thesis by simp
  next
    case False
    with Cons show ?thesis by (auto split: if_splits)
  qed
qed

lemma createCampSelection_single_active:
  "createCampSelection d now uid cid stat st = Inr (row, st') \<Longrightarrow> single_active st'"
  by (auto simp: createCampSelection_def Let_def single_active_def split: if_splits
        dest: unique_imp_distinct_active)

lemma cancelCampSelection_single_active:
  "cancelCampSelection d now uid st = Inr st' \<Longrightarrow> single_active st'"
  by (auto simp: cancelCampSelection_def Let_def single_active_def split: if_splits
        dest: unique_imp_distinct_active)

lemma updateCamp_selections:
  "updateCamp d now cid b st = Inr (x, st') \<Longrightarrow> tbl_camp_selections st' = tbl_camp_selections st"
  by (auto simp: updateCamp_def Let_def split: if_splits)

lemma updateCamp_single_active:
  "updateCamp d now cid b st = Inr (x, st') \<Longrightarrow> single_active st \<Longrightarrow> single_active st'"
  by (simp add: single_active_def updateCamp_selections)

lemma createCamp_single_active:
  "createCamp d now nd st = Inr (x, st') \<Longrightarrow> single_active st \<Longrightarrow> single_active st'"
  by (auto simp: createCamp_def Let_def single_active_def split: if_splits)

lemma createVolunteerAssignment_single_active:
  "createVolunteerAssignment d now vid cid st = Inr (x, st') \<Longrightarrow> single_active st \<Longrightarrow> single_active st'"
  by (auto simp: createVolunteerAssignment_def Let_def single_active_def split: if_splits)

lemma distinct_map_filter_conj:
  "distinct (map f (filter P xs)) \<Longrightarrow> distinct (map f (filter (\<lambda>x. Q x \<and> P x) xs))"
  by (induction xs) (auto simp: image_iff split: if_splits)

lemma deleteCamp_db_single_active:
  "deleteCamp_db d cid st = Inr st' \<Longrightarrow> single_active st \<Longrightarrow> single_active st'"
  by (auto simp: deleteCamp_db_def single_active_def distinct_map_filter_conj split: if_splits)

lemma selectCamp_store:
  "selectCamp down now campId c st = (r, c', st') \<Longrightarrow>
   st' = st \<or>
   (\<exists>uid sel st1. createCampSelection (down 0) now uid campId Active st = Inr (sel, st1) \<and>
      (st' = st1 \<or> (\<exists>b x. updateCamp (down 1) now campId b st1 = Inr (x, st'))))"
  unfolding selectCamp_def
  by (simp split: option.splits if_splits sum.splits prod.splits) blast+

lemma cancelSelection_store:
  "cancelSelection down now c st = (r, c', st') \<Longrightarrow>
   st' = st \<or>
   (\<exists>uid st1. cancelCampSelection (down 0) now uid st = Inr st1 \<and>
      (st' = st1 \<or> (\<exists>cid b x. updateCamp (down 1) now cid b st1 = Inr (x, st'))))"
  unfolding cancelSelection_def Let_def
  by (simp split: option.splits if_splits sum.splits prod.splits) blast+

lemma addCamp_store:
  "addCamp down now d c st = (r, c', st') \<Longrightarrow>
   st' = st \<or> (\<exists>nd x. createCamp (down 0) now nd st = Inr (x, st'))"
  unfolding addCamp_def Let_def
  by (simp split: option.splits if_splits sum.splits prod.splits) blast+

lemma deleteCamp_store:
  "deleteCamp down campId c st = (r, c', st') \<Longrightarrow>
   st' = st \<or> deleteCamp_db (down 0) campId st = Inr st'"
  unfolding deleteCamp_def
  by (simp split: option.splits if_splits sum.splits prod.splits)

lemma addVolunteerAssignment_store:
  "addVolunteerAssignment down now campId c st = (r, c', st') \<Longrightarrow>
   st' = st \<or> (\<exists>vid x. createVolunteerAssignment (down 0) now vid campId st = Inr (x, st'))"
  unfolding addVolunteerAssignment_def
  by (simp split: option.splits if_splits sum.splits prod.splits) blast+

lemma selectCamp_single_active:
  "selectCamp down now campId c st = (r, c', st') \<Longrightarrow> single_active st \<Longrightarrow> single_active st'"
  by (drule selectCamp_store)
     (auto intro: createCampSelection_single_active updateCamp_single_active)

lemma cancelSelection_single_active:
  "cancelSelection down now c st = (r, c', st') \<Longrightarrow> single_active st \<Longrightarrow> single_active st'"
  by (drule cancelSelection_store)
     (auto intro: cancelCampSelection_single_active updateCamp_single_active)

lemma addCamp_single_active:
  "addCamp down now d c st = (r, c', st') \<Longrightarrow> single_active st \<Longrightarrow> single_active st'"
  by (drule addCamp_store) (auto intro: createCamp_single_active)

lemma deleteCamp_single_active:
  "deleteCamp down campId c st = (r, c', st') \<Longrightarrow> single_active st \<Longrightarrow> single_active st'"
  by (drule deleteCamp_store) (auto intro: deleteCamp_db_single_active)

lemma addVolunteerAssignment_single_active:
  "addVolunteerAssignment down now campId c st = (r, c', st') \<Longrightarrow> single_active st \<Longrightarrow> single_active st'"
  by (drule addVolunteerAssignment_store) (auto intro: createVolunteerAssignment_single_active)

lemma perform_single_active:
  assumes "perform down now opn c st = (r, c', st')" and "single_active st"
  shows "single_active st'"
proof (cases opn)
  case (SelectCamp campId)
  with assms show ?thesis
    by (auto split: prod.splits intro: selectCamp_single_active)
next
  case CancelSelection
  with assms show ?thesis
    by (auto split: prod.splits intro: cancelSelection_single_active)
next
  case (AddCamp d)
  with assms show ?thesis
    by (auto split: prod.splits intro: addCamp_single_active)
next
  case (DeleteCamp campId)
  with assms show ?thesis
    by (auto split: prod.splits intro: deleteCamp_single_active)
next
  case (AddVolunteerAssignment campId)
  with assms show ?thesis
    by (auto split: prod.splits intro: addVolunteerAssignment_single_active)
qed (use assms in \<open>auto split: prod.splits\<close>)

lemma sys_step_single_active:
  "single_active (db s) \<Longrightarrow> single_active (db (sys_step s ev))"
  by (cases ev) (auto split: prod.splits intro: perform_single_active)

lemma run_single_active:
  "single_active (db s) \<Longrightarrow> single_active (db (run s evs))"
  unfolding run_def
  by (induction evs arbitrary: s) (simp_all add: sys_step_single_active)

text \<open>
  C2. Starting from a store in which every user has at most one active selection (the
  empty table, for one), after any sequence of operations, by any browsers, with
  any pattern of store failures, every user has at most one row of
  \<open>camp_selections\<close> with \<open>status = active\<close>. The store enforces it: an insert or
  update that would leave two rows with the same user and status is refused by
  \<open>UNIQUE(user_id, status)\<close>, whatever the browser has checked.
\<close>

theorem one_active_selection_per_user:
  "single_active (db s) \<Longrightarrow> length (active_of (db (run s evs)) uid) \<le> 1"
proof -
  assume "single_active (db s)"
  then have "single_active (db (run s evs))"
    by (rule run_single_active)
  then show ?thesis
    unfolding active_of_def single_active_def by (rule distinct_active_at_most_one)
qed

theorem one_active_selection_per_user_witness:
  "single_active (db system_C) \<and> length (active_of (db (run system_C overbooked)) 1) \<le> 1 \<and>
   active_of (db (run system_C overbooked)) 1 \<noteq> []"
proof -
  have h: "single_active (db system_C)"
    by (simp add: system_C_def store_C_def single_active_def)
  have n: "active_of (db (run system_C overbooked)) 1 \<noteq> []"
    by code_simp
  from h one_active_selection_per_user [OF h, of overbooked 1] n show ?thesis by simp
qed

subsection \<open>Deleting a camp\<close>

lemma deleteCamp_success:
  assumes "deleteCamp down campId c st = (r, c', st')" and "success r"
  shows "(\<exists>v. currentUser c = Some v \<and> u_role v = Volunteer) \<and>
         st' = st\<lparr> tbl_camps := filter (\<lambda>x. c_id x \<noteq> campId) (tbl_camps st),
                   tbl_camp_selections := filter (\<lambda>s. camp_id s \<noteq> campId) (tbl_camp_selections st),
                   tbl_volunteer_assignments :=
                     filter (\<lambda>a. a_camp_id a \<noteq> campId) (tbl_volunteer_assignments st) \<rparr>"
  using assms
  by (auto simp: deleteCamp_def deleteCamp_db_def split: option.splits if_splits)

lemma single_active_same_user:
  assumes "single_active st"
    and "s \<in> set (tbl_camp_selections st)" and "status s = Active"
    and "t \<in> set (tbl_camp_selections st)" and "status t = Active"
    and "user_id t = user_id s"
  shows "t = s"
proof -
  from assms(1) have "inj_on user_id (set (filter (\<lambda>s. status s = Active) (tbl_camp_selections st)))"
    by (simp add: single_active_def distinct_map)
  moreover from assms have "s \<in> set (filter (\<lambda>s. status s = Active) (tbl_camp_selections st))"
    and "t \<in> set (filter (\<lambda>s. status s = Active) (tbl_camp_selections st))"
    by simp_all
  ultimately show ?thesis using assms(6) by (auto dest: inj_onD)
qed

lemma cascade_leaves_no_active:
  assumes "single_active st"
    and "s \<in> set (tbl_camp_selections st)" and "status s = Active" and "camp_id s = campId"
  shows "filter (\<lambda>t. user_id t = user_id s \<and> status t = Active)
           (filter (\<lambda>t. camp_id t \<noteq> campId) (tbl_camp_selections st)) = []"
proof -
  have "\<not> (user_id t = user_id s \<and> status t = Active)"
    if "t \<in> set (tbl_camp_selections st)" and "camp_id t \<noteq> campId" for t
    using single_active_same_user [OF assms(1-3) that(1)] that(2) assms(4) by auto
  then show ?thesis by (auto simp: filter_empty_conv)
qed

lemma no_active_no_selection:
  assumes "active_of st (u_id u) = []" and "currentUser cu = Some u"
  shows "snd (loadUserSelection False cu st) = cu\<lparr> userSelection := None \<rparr>"
  using assms
  by (simp add: loadUserSelection_def getUserCampSelection_def active_of_def)

text \<open>
  C8. The code takes the second branch: a successful \<open>deleteCamp\<close> was called by a
  volunteer and removes exactly the camp, the selections of that camp and the
  assignments to that camp; no \<open>ConstraintViolation\<close> is raised. A user whose active
  selection pointed at the camp then has no active selection in the store: the next
  query for it finds no row, \<open>loadUserSelection\<close> sets \<open>userSelection\<close> to null, and a
  \<open>cancelSelection\<close> after that fails with \<open>NoActiveSelection\<close>.
\<close>

theorem deleteCamp_cascades:
  assumes "deleteCamp down campId c st = (r, c', st')" and "success r"
  shows "(\<exists>v. currentUser c = Some v \<and> u_role v = Volunteer) \<and>
         tbl_camps st' = filter (\<lambda>x. c_id x \<noteq> campId) (tbl_camps st) \<and>
         tbl_camp_selections st' = filter (\<lambda>s. camp_id s \<noteq> campId) (tbl_camp_selections st) \<and>
         tbl_volunteer_assignments st' =
           filter (\<lambda>a. a_camp_id a \<noteq> campId) (tbl_volunteer_assignments st) \<and>
         \<not> camp_exists st' campId \<and>
         (single_active st \<longrightarrow>
            (\<forall>s \<in> set (tbl_camp_selections st). camp_id s = campId \<and> status s = Active \<longrightarrow>
               getUserCampSelection False (user_id s) st' = Inl PGRST116 \<and>
               (\<forall>cu u. currentUser cu = Some u \<and> u_id u = user_id s \<longrightarrow>
                  userSelection (snd (loadUserSelection False cu st')) = None \<and>
                  fst (cancelSelection down' now (snd (loadUserSelection False cu st')) st')
                    = Failure NoActiveSelection)))"
proof -
  note d = deleteCamp_success [OF assms]
  have gone: "active_of st' (user_id s) = []"
    if "single_active st" "s \<in> set (tbl_camp_selections st)" "camp_id s = campId" "status s = Active"
    for s
    using cascade_leaves_no_active [OF that(1,2,4,3)] d by (simp add: active_of_def)
  have q: "getUserCampSelection False uid st' = Inl PGRST116" if "active_of st' uid = []" for uid
    using that by (simp add: getUserCampSelection_def active_of_def)
  have l: "userSelection (snd (loadUserSelection False cu st')) = None \<and>
           fst (cancelSelection down' now (snd (loadUserSelection False cu st')) st')
             = Failure NoActiveSelection"
    if "active_of st' (u_id u) = []" "currentUser cu = Some u" for cu u
    using no_active_no_selection [OF that] that(2) by (simp add: cancelSelection_def)
  from d have ne: "\<not> camp_exists st' campId"
    by (auto simp: camp_exists_def)
  from d have vol: "\<exists>v. currentUser c = Some v \<and> u_role v = Volunteer"
    and t1: "tbl_camps st' = filter (\<lambda>x. c_id x \<noteq> campId) (tbl_camps st)"
    and t2: "tbl_camp_selections st' = filter (\<lambda>s. camp_id s \<noteq> campId) (tbl_camp_selections st)"
    and t3: "tbl_volunteer_assignments st' =
             filter (\<lambda>a. a_camp_id a \<noteq> campId) (tbl_volunteer_assignments st)"
    by simp_all
  have last: "getUserCampSelection False (user_id s) st' = Inl PGRST116 \<and>
       (\<forall>cu u. currentUser cu = Some u \<and> u_id u = user_id s \<longrightarrow>
          userSelection (snd (loadUserSelection False cu st')) = None \<and>
          fst (cancelSelection down' now (snd (loadUserSelection False cu st')) st')
            = Failure NoActiveSelection)"
    if "single_active st" "s \<in> set (tbl_camp_selections st)" "camp_id s = campId \<and> status s = Active"
    for s
  proof -
    from that have g: "active_of st' (user_id s) = []" by (simp add: gone)
    show ?thesis
    proof (intro conjI allI impI)
      show "getUserCampSelection False (user_id s) st' = Inl PGRST116"
        using g by (rule q)
    next
      fix cu :: client and u :: user
      assume "currentUser cu = Some u \<and> u_id u = user_id s"
      with g have "active_of st' (u_id u) = []" "currentUser cu = Some u" by simp_all
      from l [OF this]
      show "userSelection (snd (loadUserSelection False cu st')) = None"
        and "fst (cancelSelection down' now (snd (loadUserSelection False cu st')) st')
              = Failure NoActiveSelection"
        by simp_all
    qed
  qed
  from vol t1 t2 t3 ne last show ?thesis
    by blast
qed

theorem deleteCamp_cascades_witness:
  "success (fst (deleteCamp no_faults 0 client_V store_C_selected)) \<and>
   single_active store_C_selected \<and>
   selection_A \<in> set (tbl_camp_selections store_C_selected) \<and>
   camp_id selection_A = 0 \<and> status selection_A = Active \<and>
   currentUser (client_A\<lparr> userSelection := Some (selection_A, Some camp_C) \<rparr>) = Some user_A \<and>
   u_id user_A = user_id selection_A \<and>
   tbl_camps (snd (snd (deleteCamp no_faults 0 client_V store_C_selected))) = [] \<and>
   tbl_camp_selections (snd (snd (deleteCamp no_faults 0 client_V store_C_selected))) = [] \<and>
   fst (cancelSelection no_faults 9
         (snd (loadUserSelection False (client_A\<lparr> userSelection := Some (selection_A, Some camp_C) \<rparr>)
            (snd (snd (deleteCamp no_faults 0 client_V store_C_selected)))))
         (snd (snd (deleteCamp no_faults 0 client_V store_C_selected))))
     = Failure NoActiveSelection"
proof -
  let ?d = "deleteCamp no_faults 0 client_V store_C_selected"
  let ?cu = "client_A\<lparr> userSelection := Some (selection_A, Some camp_C) \<rparr>"
  have e: "?d = (fst ?d, fst (snd ?d), snd (snd ?d))"
    by simp
  have s: "success (fst ?d)"
    by (simp add: deleteCamp_def deleteCamp_db_def client_V_def user_V_def no_faults_def)
  have i: "single_active store_C_selected"
    by (simp add: single_active_def store_C_selected_def store_C_def)
  have m: "selection_A \<in> set (tbl_camp_selections store_C_selected)"
    by (simp add: store_C_selected_def store_C_def)
  have a: "camp_id selection_A = 0 \<and> status selection_A = Active"
    by (simp add: selection_A_def)
  have u: "currentUser ?cu = Some user_A \<and> u_id user_A = user_id selection_A"
    by (simp add: client_A_def user_A_def selection_A_def)
  note t = deleteCamp_cascades [OF e s, where down' = no_faults and now = 9]
  from t have 1: "tbl_camps (snd (snd ?d)) = []" "tbl_camp_selections (snd (snd ?d)) = []"
    by (simp_all add: store_C_selected_def store_C_def camp_C_def selection_A_def)
  from t i m a u
  have 2: "fst (cancelSelection no_faults 9 (snd (loadUserSelection False ?cu (snd (snd ?d)))) (snd (snd ?d)))
             = Failure NoActiveSelection"
    by blast
  from s i m a u 1 2 show ?thesis by simp
qed

subsection \<open>The successful paths of selecting and cancelling\<close>

lemma find_filter_conv:
  "find P xs = (case filter P xs of [] \<Rightarrow> None | x # _ \<Rightarrow> Some x)"
  by (induction xs) auto

lemma filter_getCamps:
  "filter P (rev (sort_key k xs)) = rev (sort_key k (filter P xs))"
  by (simp add: rev_filter [symmetric] filter_sort)

lemma find_loaded_camp:
  assumes "filter (\<lambda>x. c_id x = cid) (tbl_camps st) = [camp]" and "camps_loaded c st"
  shows "find (\<lambda>x. c_id x = cid) (camps c) = Some camp"
  using assms by (simp add: find_filter_conv camps_loaded_def filter_getCamps)




lemma cancelSelection_success:
  assumes cu: "currentUser c = Some u" and us: "userSelection c = Some sel"
    and f: "find (\<lambda>x. c_id x = camp_id (fst sel)) (camps c) = Some cmp"
    and d: "\<not> down 0" "\<not> down 1"
    and uq: "unique_user_status (map (cancel_row now (u_id u)) (tbl_camp_selections st))"
    and rg: "in_integer_range (beds cmp + 1)"
  shows "cancelSelection down now c st =
           (Success (),
            reload down c
              (st\<lparr> tbl_camp_selections := map (cancel_row now (u_id u)) (tbl_camp_selections st),
                  tbl_camps := map (set_beds now (camp_id (fst sel)) (beds cmp + 1)) (tbl_camps st) \<rparr>),
            st\<lparr> tbl_camp_selections := map (cancel_row now (u_id u)) (tbl_camp_selections st),
                tbl_camps := map (set_beds now (camp_id (fst sel)) (beds cmp + 1)) (tbl_camps st) \<rparr>)"
proof -
  have can: "cancelCampSelection (down 0) now (u_id u) st =
      Inr (st\<lparr> tbl_camp_selections := map (cancel_row now (u_id u)) (tbl_camp_selections st) \<rparr>)"
    using d(1) uq
    by (simp add: cancelCampSelection_def Let_def cancel_row_def [abs_def])
  show ?thesis
    using cu us f d(2) rg
    by (simp add: cancelSelection_def can updateCamp_def Let_def set_beds_def [abs_def])
qed

lemma cancelSelection_refused:
  assumes cu: "currentUser c = Some u" and us: "userSelection c = Some sel"
    and f: "find (\<lambda>x. c_id x = camp_id (fst sel)) (camps c) = Some cmp"
    and d: "\<not> down 0" "\<not> down 1"
    and uq: "unique_user_status (map (cancel_row now (u_id u)) (tbl_camp_selections st))"
    and rg: "\<not> in_integer_range (beds cmp + 1)"
  shows "cancelSelection down now c st =
           (Failure (StoreError NumericValueOutOfRange), c,
            st\<lparr> tbl_camp_selections := map (cancel_row now (u_id u)) (tbl_camp_selections st) \<rparr>)"
proof -
  have can: "cancelCampSelection (down 0) now (u_id u) st =
      Inr (st\<lparr> tbl_camp_selections := map (cancel_row now (u_id u)) (tbl_camp_selections st) \<rparr>)"
    using d(1) uq
    by (simp add: cancelCampSelection_def Let_def cancel_row_def [abs_def])
  show ?thesis
    using cu us f d(2) rg
    by (simp add: cancelSelection_def can updateCamp_def Let_def)
qed

lemma c_id_set_beds [simp]: "c_id (set_beds now cid b x) = c_id x"
  by (simp add: set_beds_def)

lemma filter_set_beds:
  "filter (\<lambda>x. c_id x = k) (map (set_beds now cid b) xs) =
   map (set_beds now cid b) (filter (\<lambda>x. c_id x = k) xs)"
  by (induction xs) simp_all



lemma currentUser_reload [simp]: "currentUser (reload down c st) = currentUser c"
  by (simp add: reload_def loadCamps_def loadUserSelection_def
        split: sum.splits option.splits)

lemma camps_loadUserSelection [simp]: "camps (snd (loadUserSelection d c st)) = camps c"
  by (simp add: loadUserSelection_def split: sum.splits option.splits)





subsection \<open>Cancelling the one active selection\<close>

lemma user_id_cancel_row [simp]: "user_id (cancel_row now uid t) = user_id t"
  by (simp add: cancel_row_def)

lemma status_cancel_row:
  "status (cancel_row now uid t) = (if user_id t = uid then Cancelled else status t)"
  by (cases "status t") (simp_all add: cancel_row_def)

lemma unique_user_status_Cons:
  "unique_user_status (a # sels) =
     (unique_user_status sels \<and> (\<forall>t \<in> set sels. user_id t = user_id a \<longrightarrow> status t \<noteq> status a))"
  by (auto simp: unique_user_status_def image_iff)

lemma unique_user_status_cancel:
  assumes "unique_user_status sels"
    and "\<forall>t \<in> set sels. user_id t = uid \<longrightarrow> status t \<noteq> Cancelled"
  shows "unique_user_status (map (cancel_row now uid) sels)"
  using assms
proof (induction sels)
  case Nil
  then show ?case by (simp add: unique_user_status_def)
next
  case (Cons a sels)
  from Cons.prems have u: "unique_user_status sels"
    and na: "\<forall>t \<in> set sels. user_id t = user_id a \<longrightarrow> status t \<noteq> status a"
    and nc: "\<forall>t \<in> set sels. user_id t = uid \<longrightarrow> status t = Active"
    and nca: "user_id a = uid \<longrightarrow> status a = Active"
    by (auto simp: unique_user_status_Cons intro: status.exhaust)
  from Cons.IH u Cons.prems(2) have ih: "unique_user_status (map (cancel_row now uid) sels)"
    by simp
  have "status (cancel_row now uid t) \<noteq> status (cancel_row now uid a)"
    if "t \<in> set sels" and "user_id t = user_id a" for t
    using that na nc nca by (auto simp: status_cancel_row)
  with ih show ?case
    by (simp add: unique_user_status_Cons)
qed

lemma no_active_after_cancel:
  "filter (\<lambda>t. user_id t = uid \<and> status t = Active) (map (cancel_row now uid) sels) = []"
  by (simp add: filter_empty_conv status_cancel_row)

lemma original_beds_set_beds [simp]: "original_beds (set_beds now cid b x) = original_beds x"
  by (simp add: set_beds_def)

text \<open>
  C5, as the code has it. First part: the user is logged in, has exactly one active
  selection in the store and no cancelled one, the browser has loaded that selection
  and the camps, and the store is reachable. Then \<open>cancelSelection\<close> sets the row's
  status to cancelled with \<open>cancelled_at\<close> stamped and the user has no active row
  left. When the camp's beds count plus 1 fits the integer column, the call succeeds
  and the count becomes its former value plus 1; there is no cap at \<open>original_beds\<close>,
  which is not read. When it does not fit, the store refuses the update: the call
  fails, the selection stays cancelled and the count is unchanged. Second part: when
  the browser has no user or no loaded selection, \<open>cancelSelection\<close> fails with
  \<open>NoActiveSelection\<close> and changes nothing.
\<close>

theorem cancelSelection_effect:
  "(currentUser c = Some u \<and> active_of st (u_id u) = [s] \<and> userSelection c = Some (s, j) \<and>
    camps_loaded c st \<and> filter (\<lambda>x. c_id x = camp_id s) (tbl_camps st) = [camp] \<and>
    \<not> down 0 \<and> \<not> down 1 \<and>
    unique_user_status (tbl_camp_selections st) \<and>
    (\<forall>t \<in> set (tbl_camp_selections st). user_id t = u_id u \<longrightarrow> status t \<noteq> Cancelled) \<and>
    cancelSelection down now c st = (r, c', st')
    \<longrightarrow> s\<lparr> status := Cancelled, cancelled_at := Some now \<rparr> \<in> set (tbl_camp_selections st') \<and>
        active_of st' (u_id u) = [] \<and>
        camp_beds st (camp_id s) = [beds camp] \<and>
        map original_beds (tbl_camps st') = map original_beds (tbl_camps st) \<and>
        (in_integer_range (beds camp + 1) \<longrightarrow>
           r = Success () \<and> camp_beds st' (camp_id s) = [beds camp + 1]) \<and>
        (\<not> in_integer_range (beds camp + 1) \<longrightarrow>
           r = Failure (StoreError NumericValueOutOfRange) \<and> c' = c \<and>
           camp_beds st' (camp_id s) = [beds camp])) \<and>
   (currentUser c = None \<or> userSelection c = None
    \<longrightarrow> cancelSelection down now c st = (Failure NoActiveSelection, c, st))"
proof (intro conjI impI)
  assume "currentUser c = None \<or> userSelection c = None"
  then show "cancelSelection down now c st = (Failure NoActiveSelection, c, st)"
    by (auto simp: cancelSelection_def split: option.splits)
next
  assume a: "currentUser c = Some u \<and> active_of st (u_id u) = [s] \<and> userSelection c = Some (s, j) \<and>
    camps_loaded c st \<and> filter (\<lambda>x. c_id x = camp_id s) (tbl_camps st) = [camp] \<and>
    \<not> down 0 \<and> \<not> down 1 \<and>
    unique_user_status (tbl_camp_selections st) \<and>
    (\<forall>t \<in> set (tbl_camp_selections st). user_id t = u_id u \<longrightarrow> status t \<noteq> Cancelled) \<and>
    cancelSelection down now c st = (r, c', st')"
  then have cu: "currentUser c = Some u" and one: "active_of st (u_id u) = [s]"
    and us: "userSelection c = Some (s, j)" and cl: "camps_loaded c st"
    and fc: "filter (\<lambda>x. c_id x = camp_id s) (tbl_camps st) = [camp]"
    and d: "\<not> down 0" "\<not> down 1"
    and uq: "unique_user_status (tbl_camp_selections st)"
    and nc: "\<forall>t \<in> set (tbl_camp_selections st). user_id t = u_id u \<longrightarrow> status t \<noteq> Cancelled"
    and res: "cancelSelection down now c st = (r, c', st')"
    by simp_all
  have f: "find (\<lambda>x. c_id x = camp_id (fst (s, j))) (camps c) = Some camp"
    using find_loaded_camp [OF fc cl] by simp
  note uq' = unique_user_status_cancel [OF uq nc]
  from fc have ci: "c_id camp = camp_id s"
    by (auto dest: filter_eq_ConsD)
  have fits: "r = Success () \<and>
      tbl_camp_selections st' = map (cancel_row now (u_id u)) (tbl_camp_selections st) \<and>
      tbl_camps st' = map (set_beds now (camp_id s) (beds camp + 1)) (tbl_camps st)"
    if "in_integer_range (beds camp + 1)"
    using cancelSelection_success [OF cu us f d uq' that] res by auto
  have refused: "r = Failure (StoreError NumericValueOutOfRange) \<and> c' = c \<and>
      tbl_camp_selections st' = map (cancel_row now (u_id u)) (tbl_camp_selections st) \<and>
      tbl_camps st' = tbl_camps st"
    if "\<not> in_integer_range (beds camp + 1)"
    using cancelSelection_refused [OF cu us f d uq' that] res by auto
  from fits refused
  have t1: "tbl_camp_selections st' = map (cancel_row now (u_id u)) (tbl_camp_selections st)"
    by blast
  from fits refused
  have t2: "map original_beds (tbl_camps st') = map original_beds (tbl_camps st)"
    by (cases "in_integer_range (beds camp + 1)") (simp_all add: comp_def)
  from one have "s \<in> set (filter (\<lambda>t. user_id t = u_id u \<and> status t = Active) (tbl_camp_selections st))"
    by (simp add: active_of_def)
  then have sm: "s \<in> set (tbl_camp_selections st)" and su: "user_id s = u_id u" "status s = Active"
    by simp_all
  from sm have "cancel_row now (u_id u) s \<in> set (tbl_camp_selections st')"
    unfolding t1 by simp
  with su show "s\<lparr> status := Cancelled, cancelled_at := Some now \<rparr> \<in> set (tbl_camp_selections st')"
    by (simp add: cancel_row_def)
  show "active_of st' (u_id u) = []"
    by (simp add: active_of_def t1 no_active_after_cancel)
  show "camp_beds st (camp_id s) = [beds camp]"
    by (simp add: camp_beds_def fc)
  show "map original_beds (tbl_camps st') = map original_beds (tbl_camps st)"
    by (rule t2)
  {
    assume "in_integer_range (beds camp + 1)"
    from fits [OF this] show "r = Success ()"
      and "camp_beds st' (camp_id s) = [beds camp + 1]"
      by (simp_all add: camp_beds_def filter_set_beds fc set_beds_def ci)
  }
  {
    assume "\<not> in_integer_range (beds camp + 1)"
    from refused [OF this] show "r = Failure (StoreError NumericValueOutOfRange)" and "c' = c"
      and "camp_beds st' (camp_id s) = [beds camp]"
      by (simp_all add: camp_beds_def fc)
  }
qed

theorem cancelSelection_effect_witness:
  "currentUser (client_A\<lparr> userSelection := Some (selection_A, Some camp_C) \<rparr>) = Some user_A \<and>
   active_of store_C_selected (u_id user_A) = [selection_A] \<and>
   camps_loaded (client_A\<lparr> userSelection := Some (selection_A, Some camp_C) \<rparr>) store_C_selected \<and>
   filter (\<lambda>x. c_id x = camp_id selection_A) (tbl_camps store_C_selected) = [camp_C] \<and>
   unique_user_status (tbl_camp_selections store_C_selected) \<and>
   in_integer_range (beds camp_C + 1) \<and>
   fst (cancelSelection no_faults 9 (client_A\<lparr> userSelection := Some (selection_A, Some camp_C) \<rparr>)
          store_C_selected) = Success () \<and>
   camp_beds store_C_selected 0 = [1] \<and>
   camp_beds (snd (snd (cancelSelection no_faults 9
       (client_A\<lparr> userSelection := Some (selection_A, Some camp_C) \<rparr>) store_C_selected))) 0 = [2] \<and>
   currentUser client_A_max = Some user_A \<and>
   active_of store_C_max (u_id user_A) = [selection_A] \<and>
   camps_loaded client_A_max store_C_max \<and>
   filter (\<lambda>x. c_id x = camp_id selection_A) (tbl_camps store_C_max) = [camp_C_max] \<and>
   \<not> in_integer_range (beds camp_C_max + 1) \<and>
   fst (cancelSelection no_faults 9 client_A_max store_C_max)
     = Failure (StoreError NumericValueOutOfRange) \<and>
   camp_beds (snd (snd (cancelSelection no_faults 9 client_A_max store_C_max))) 0 = [2147483647] \<and>
   active_of (snd (snd (cancelSelection no_faults 9 client_A_max store_C_max))) (u_id user_A) = [] \<and>
   userSelection client_A = None \<and>
   cancelSelection no_faults 9 client_A store_C = (Failure NoActiveSelection, client_A, store_C)"
proof -
  let ?c = "client_A\<lparr> userSelection := Some (selection_A, Some camp_C) \<rparr>"
  let ?r = "cancelSelection no_faults 9 ?c store_C_selected"
  let ?m = "cancelSelection no_faults 9 client_A_max store_C_max"
  have cu: "currentUser ?c = Some user_A" and us: "userSelection ?c = Some (selection_A, Some camp_C)"
    by (simp_all add: client_A_def)
  have one: "active_of store_C_selected (u_id user_A) = [selection_A]"
    by (simp add: active_of_def store_C_selected_def store_C_def selection_A_def user_A_def)
  have cl: "camps_loaded ?c store_C_selected"
    by (simp add: camps_loaded_def client_A_def store_C_selected_def store_C_def)
  have fc: "filter (\<lambda>x. c_id x = camp_id selection_A) (tbl_camps store_C_selected) = [camp_C]"
    by (simp add: store_C_selected_def store_C_def camp_C_def selection_A_def)
  have uq: "unique_user_status (tbl_camp_selections store_C_selected)"
    by (simp add: unique_user_status_def store_C_selected_def store_C_def)
  have nc: "\<forall>t \<in> set (tbl_camp_selections store_C_selected).
              user_id t = u_id user_A \<longrightarrow> status t \<noteq> Cancelled"
    by (simp add: store_C_selected_def store_C_def selection_A_def)
  have d: "\<not> no_faults 0" "\<not> no_faults 1"
    by (simp_all add: no_faults_def)
  have ir: "in_integer_range (beds camp_C + 1)"
    by (simp add: in_integer_range_def camp_C_def)
  have e: "?r = (fst ?r, fst (snd ?r), snd (snd ?r))"
    by simp
  have n: "userSelection client_A = None"
    by (simp add: client_A_def)
  note t = cancelSelection_effect [where c = ?c and u = user_A and st = store_C_selected
      and s = selection_A and j = "Some camp_C" and camp = camp_C and down = no_faults and now = 9
      and r = "fst ?r" and c' = "fst (snd ?r)" and st' = "snd (snd ?r)"]
  from t cu one us cl fc d uq nc e ir
  have k: "fst ?r = Success ()" "camp_beds store_C_selected (camp_id selection_A) = [beds camp_C]"
    "camp_beds (snd (snd ?r)) (camp_id selection_A) = [beds camp_C + 1]"
    by blast+
  have k2: "camp_beds store_C_selected 0 = [1]" "camp_beds (snd (snd ?r)) 0 = [2]"
    using k(2,3) by (simp_all add: selection_A_def camp_C_def)
  have cum: "currentUser client_A_max = Some user_A"
    and usm: "userSelection client_A_max = Some (selection_A, Some camp_C_max)"
    by (simp_all add: client_A_max_def)
  have onem: "active_of store_C_max (u_id user_A) = [selection_A]"
    by (simp add: active_of_def store_C_max_def store_C_selected_def store_C_def selection_A_def
          user_A_def)
  have clm: "camps_loaded client_A_max store_C_max"
    by (simp add: camps_loaded_def client_A_max_def store_C_max_def store_C_selected_def store_C_def)
  have fcm: "filter (\<lambda>x. c_id x = camp_id selection_A) (tbl_camps store_C_max) = [camp_C_max]"
    by (simp add: store_C_max_def store_C_selected_def store_C_def camp_C_max_def camp_C_def
          selection_A_def)
  have uqm: "unique_user_status (tbl_camp_selections store_C_max)"
    by (simp add: unique_user_status_def store_C_max_def store_C_selected_def store_C_def)
  have ncm: "\<forall>t \<in> set (tbl_camp_selections store_C_max).
              user_id t = u_id user_A \<longrightarrow> status t \<noteq> Cancelled"
    by (simp add: store_C_max_def store_C_selected_def store_C_def selection_A_def)
  have nir: "\<not> in_integer_range (beds camp_C_max + 1)"
    by (simp add: in_integer_range_def camp_C_max_def)
  have em: "?m = (fst ?m, fst (snd ?m), snd (snd ?m))"
    by simp
  note tm = cancelSelection_effect [where c = client_A_max and u = user_A and st = store_C_max
      and s = selection_A and j = "Some camp_C_max" and camp = camp_C_max and down = no_faults
      and now = 9 and r = "fst ?m" and c' = "fst (snd ?m)" and st' = "snd (snd ?m)"]
  from tm cum onem usm clm fcm d uqm ncm em nir
  have km: "fst ?m = Failure (StoreError NumericValueOutOfRange)"
    "camp_beds (snd (snd ?m)) (camp_id selection_A) = [beds camp_C_max]"
    "active_of (snd (snd ?m)) (u_id user_A) = []"
    by blast+
  have km2: "camp_beds (snd (snd ?m)) 0 = [2147483647]"
    using km(2) by (simp add: selection_A_def camp_C_max_def)
  from cancelSelection_effect [where c = client_A and down = no_faults and now = 9 and st = store_C] n
  have f: "cancelSelection no_faults 9 client_A store_C = (Failure NoActiveSelection, client_A, store_C)"
    by blast
  show ?thesis
    by (intro conjI cu one cl fc uq ir k(1) k2 cum onem clm fcm nir km(1) km2 km(3) n f)
qed

text \<open>
  C5 as stated fails on the cap. A's selection of C was written but the bed update
  failed, so C still has \<open>beds = 1 = original_beds\<close> while A holds the one active
  selection. Cancelling it succeeds and leaves \<open>beds = 2\<close>.
\<close>

theorem cancelSelection_cap_counterexample:
  "length (active_of (db (run system_C half_selected_reloaded)) 1) = 1 \<and>
   camp_beds (db (run system_C half_selected_reloaded)) 0 = [1] \<and>
   outcome (run system_C half_selected_reloaded) (Event 0 no_faults 5 CancelSelection) = None \<and>
   camp_beds (db (run system_C (half_selected_reloaded @ [Event 0 no_faults 5 CancelSelection]))) 0 = [2] \<and>
   map original_beds
     (tbl_camps (db (run system_C (half_selected_reloaded @ [Event 0 no_faults 5 CancelSelection])))) = [1]"
  by code_simp

text \<open>
  Why the statement above asks for a user with no cancelled row:
  \<open>UNIQUE(user_id, status)\<close> allows one cancelled row per user as it allows one
  active row. A selects C, cancels, selects C again; the second cancellation is
  refused by the store and the selection stays active.
\<close>

lemma second_cancellation_refused:
  "outcome (run system_C round_trip) (Event 0 no_faults 6 CancelSelection)
     = Some (StoreError UniqueViolation) \<and>
   map status (tbl_camp_selections (db (run system_C round_trip))) = [Cancelled, Active] \<and>
   map status (tbl_camp_selections
     (db (run system_C (round_trip @ [Event 0 no_faults 6 CancelSelection])))) = [Cancelled, Active]"
  by code_simp

subsection \<open>What a failed call leaves behind\<close>

lemma selectCamp_failure:
  assumes "selectCamp down now campId c st = (Failure e, c', st')"
  shows "c' = c \<and>
         (st' = st \<or>
          ((down 1 \<and> e = StoreError Unavailable \<or> e = StoreError NumericValueOutOfRange) \<and>
           (\<exists>u. currentUser c = Some u \<and>
              st' = st\<lparr> tbl_camp_selections :=
                          tbl_camp_selections st @ [new_selection st now (u_id u) campId],
                        next_uuid := Suc (next_uuid st) \<rparr>)))"
  using assms
  by (auto simp: selectCamp_def createCampSelection_def updateCamp_def Let_def new_selection_def
        split: option.splits if_splits)

lemma cancelSelection_failure:
  assumes "cancelSelection down now c st = (Failure e, c', st')"
  shows "c' = c \<and>
         (st' = st \<or>
          ((down 1 \<and> e = StoreError Unavailable \<or> e = StoreError NumericValueOutOfRange) \<and>
           (\<exists>u. currentUser c = Some u \<and>
              st' = st\<lparr> tbl_camp_selections :=
                          map (cancel_row now (u_id u)) (tbl_camp_selections st) \<rparr>)))"
  using assms
  by (auto simp: cancelSelection_def cancelCampSelection_def updateCamp_def Let_def
        cancel_row_def [abs_def] split: option.splits if_splits)

lemma addCamp_failure:
  "addCamp down now d c st = (Failure e, c', st') \<Longrightarrow> c' = c \<and> st' = st"
  by (auto simp: addCamp_def createCamp_def Let_def split: option.splits if_splits)

lemma deleteCamp_failure:
  "deleteCamp down campId c st = (Failure e, c', st') \<Longrightarrow> c' = c \<and> st' = st"
  by (auto simp: deleteCamp_def deleteCamp_db_def split: option.splits if_splits)

lemma addVolunteerAssignment_failure:
  "addVolunteerAssignment down now campId c st = (Failure e, c', st') \<Longrightarrow> c' = c \<and> st' = st"
  by (auto simp: addVolunteerAssignment_def createVolunteerAssignment_def Let_def
        split: option.splits if_splits)

lemma login_failure: "login d email pw c st = (Failure e, c') \<Longrightarrow> c' = c"
  by (auto simp: login_def split: sum.splits)

lemma loadCamps_failure: "loadCamps d c st = (Failure e, c') \<Longrightarrow> c' = c"
  by (auto simp: loadCamps_def split: sum.splits)

lemma loadUserSelection_failure: "loadUserSelection d c st = (Failure e, c') \<Longrightarrow> c' = c"
  by (auto simp: loadUserSelection_def split: sum.splits option.splits if_splits)

lemma error_Some: "error r = Some e \<Longrightarrow> r = Failure e"
  by (cases r) simp_all

lemma perform_failure:
  assumes "perform down now opn c st = (Some e, c', st')"
  shows "c' = c \<and>
         (st' = st \<or>
          ((down 1 \<and> e = StoreError Unavailable \<or> e = StoreError NumericValueOutOfRange) \<and>
           ((\<exists>campId u. opn = SelectCamp campId \<and> currentUser c = Some u \<and>
               st' = st\<lparr> tbl_camp_selections :=
                           tbl_camp_selections st @ [new_selection st now (u_id u) campId],
                         next_uuid := Suc (next_uuid st) \<rparr>) \<or>
            (\<exists>u. opn = CancelSelection \<and> currentUser c = Some u \<and>
               st' = st\<lparr> tbl_camp_selections :=
                           map (cancel_row now (u_id u)) (tbl_camp_selections st) \<rparr>))))"
proof (cases opn)
  case (Login email pw)
  with assms show ?thesis
    by (auto split: prod.splits dest!: error_Some login_failure)
next
  case Logout
  with assms show ?thesis by (simp add: logout_def)
next
  case LoadCamps
  with assms show ?thesis
    by (auto split: prod.splits dest!: error_Some loadCamps_failure)
next
  case LoadUserSelection
  with assms show ?thesis
    by (auto split: prod.splits dest!: error_Some loadUserSelection_failure)
next
  case (SelectCamp campId)
  with assms obtain r where "selectCamp down now campId c st = (r, c', st')" "error r = Some e"
    by (auto split: prod.splits)
  then have "selectCamp down now campId c st = (Failure e, c', st')"
    by (simp add: error_Some)
  from selectCamp_failure [OF this] SelectCamp show ?thesis by blast
next
  case CancelSelection
  with assms obtain r where "cancelSelection down now c st = (r, c', st')" "error r = Some e"
    by (auto split: prod.splits)
  then have "cancelSelection down now c st = (Failure e, c', st')"
    by (simp add: error_Some)
  from cancelSelection_failure [OF this] CancelSelection show ?thesis by blast
next
  case (AddCamp d)
  with assms obtain r where "addCamp down now d c st = (r, c', st')" "error r = Some e"
    by (auto split: prod.splits)
  then have "addCamp down now d c st = (Failure e, c', st')"
    by (simp add: error_Some)
  from addCamp_failure [OF this] show ?thesis by simp
next
  case (DeleteCamp campId)
  with assms obtain r where "deleteCamp down campId c st = (r, c', st')" "error r = Some e"
    by (auto split: prod.splits)
  then have "deleteCamp down campId c st = (Failure e, c', st')"
    by (simp add: error_Some)
  from deleteCamp_failure [OF this] show ?thesis by simp
next
  case (AddVolunteerAssignment campId)
  with assms obtain r where "addVolunteerAssignment down now campId c st = (r, c', st')"
    "error r = Some e"
    by (auto split: prod.splits)
  then have "addVolunteerAssignment down now campId c st = (Failure e, c', st')"
    by (simp add: error_Some)
  from addVolunteerAssignment_failure [OF this] show ?thesis by simp
next
  case GetVolunteerHistory
  with assms show ?thesis by simp
qed

subsection \<open>Successful calls from an up-to-date browser keep beds and selections in agreement\<close>

lemma selectCamp_Success:
  assumes "selectCamp down now campId c st = (Success r, c', st')"
  shows "\<exists>u cmp. currentUser c = Some u \<and> find (\<lambda>x. c_id x = campId) (camps c) = Some cmp \<and>
           0 < beds cmp \<and>
           tbl_camp_selections st' = tbl_camp_selections st @ [new_selection st now (u_id u) campId] \<and>
           tbl_camps st' = map (set_beds now campId (beds cmp - 1)) (tbl_camps st) \<and>
           next_uuid st' = Suc (next_uuid st)"
  using assms
  by (auto simp: selectCamp_def createCampSelection_def updateCamp_def Let_def new_selection_def
        set_beds_def [abs_def] split: option.splits if_splits)

lemma cancelSelection_Success:
  assumes "cancelSelection down now c st = (Success r, c', st')"
  shows "\<exists>u sel. currentUser c = Some u \<and> userSelection c = Some sel \<and>
           tbl_camp_selections st' = map (cancel_row now (u_id u)) (tbl_camp_selections st) \<and>
           next_uuid st' = next_uuid st \<and>
           (find (\<lambda>x. c_id x = camp_id (fst sel)) (camps c) = None \<and> tbl_camps st' = tbl_camps st \<or>
            (\<exists>cmp. find (\<lambda>x. c_id x = camp_id (fst sel)) (camps c) = Some cmp \<and>
               tbl_camps st' = map (set_beds now (camp_id (fst sel)) (beds cmp + 1)) (tbl_camps st)))"
proof -
  from assms obtain u sel where cu: "currentUser c = Some u" and us: "userSelection c = Some sel"
    by (cases "currentUser c"; cases "userSelection c") (auto simp: cancelSelection_def)
  from assms have
    "tbl_camp_selections st' = map (cancel_row now (u_id u)) (tbl_camp_selections st) \<and>
     next_uuid st' = next_uuid st \<and>
     (find (\<lambda>x. c_id x = camp_id (fst sel)) (camps c) = None \<and> tbl_camps st' = tbl_camps st \<or>
      (\<exists>cmp. find (\<lambda>x. c_id x = camp_id (fst sel)) (camps c) = Some cmp \<and>
         tbl_camps st' = map (set_beds now (camp_id (fst sel)) (beds cmp + 1)) (tbl_camps st)))"
    by (cases "find (\<lambda>x. c_id x = camp_id (fst sel)) (camps c)")
       (auto simp: cancelSelection_def cu us cancelCampSelection_def updateCamp_def Let_def
          cancel_row_def [abs_def] set_beds_def [abs_def] split: if_splits)
  with cu us show ?thesis by blast
qed

lemma addCamp_Success:
  assumes "addCamp down now d c st = (Success r, c', st')"
  shows "c_id r = next_uuid st \<and> beds r = cd_beds d \<and> original_beds r = cd_beds d \<and>
         tbl_camps st' = tbl_camps st @ [r] \<and>
         tbl_camp_selections st' = tbl_camp_selections st \<and>
         next_uuid st' = Suc (next_uuid st)"
  using assms
  by (auto simp: addCamp_def createCamp_def Let_def camp_data.defs split: option.splits if_splits)


lemma find_SomeD: "find P xs = Some x \<Longrightarrow> x \<in> set xs \<and> P x"
  by (induction xs) (auto split: if_splits)

lemma loaded_camp_stored:
  assumes "camps_loaded c st" and "find (\<lambda>x. c_id x = cid) (camps c) = Some cmp"
  shows "cmp \<in> set (tbl_camps st) \<and> c_id cmp = cid"
  using find_SomeD [OF assms(2)] assms(1) by (simp add: camps_loaded_def)

lemma loaded_camp_missing:
  assumes "camps_loaded c st" and "find (\<lambda>x. c_id x = cid) (camps c) = None"
  shows "\<forall>x \<in> set (tbl_camps st). c_id x \<noteq> cid"
  using assms by (auto simp: camps_loaded_def find_None_iff)

lemma distinct_c_id_eq:
  assumes "distinct (map c_id xs)" and "x \<in> set xs" and "y \<in> set xs" and "c_id x = c_id y"
  shows "x = y"
  using assms by (auto simp: distinct_map dest: inj_onD)

lemma camp_id_cancel_row [simp]: "camp_id (cancel_row now uid t) = camp_id t"
  by (simp add: cancel_row_def)

lemma active_count_after_cancel:
  "length (filter (\<lambda>t. camp_id t = k \<and> status t = Active) (map (cancel_row now uid) sels)) +
   length (filter (\<lambda>t. camp_id t = k) (filter (\<lambda>t. user_id t = uid \<and> status t = Active) sels)) =
   length (filter (\<lambda>t. camp_id t = k \<and> status t = Active) sels)"
proof (induction sels)
  case Nil
  then show ?case by simp
next
  case (Cons a sels)
  then show ?case
    by (cases "status a") (auto simp: cancel_row_def)
qed

lemma beds_agree_tables:
  "tbl_camps st' = tbl_camps st \<Longrightarrow> tbl_camp_selections st' = tbl_camp_selections st \<Longrightarrow>
   beds_agree st \<Longrightarrow> beds_agree st'"
  by (simp add: beds_agree_def active_on_def)

lemma beds_agree_select:
  assumes ag: "beds_agree st" and di: "distinct (map c_id (tbl_camps st))"
    and cm: "cmp \<in> set (tbl_camps st)" "c_id cmp = campId"
    and s: "tbl_camp_selections st' = tbl_camp_selections st @ [new_selection st now uid campId]"
    and t: "tbl_camps st' = map (set_beds now campId (beds cmp - 1)) (tbl_camps st)"
  shows "beds_agree st'"
  unfolding beds_agree_def
proof
  fix x' assume "x' \<in> set (tbl_camps st')"
  then obtain x where x: "x \<in> set (tbl_camps st)" and x': "x' = set_beds now campId (beds cmp - 1) x"
    unfolding t by auto
  from ag x have a: "beds x + int (length (active_on st (c_id x))) = original_beds x"
    by (simp add: beds_agree_def)
  show "beds x' + int (length (active_on st' (c_id x'))) = original_beds x'"
  proof (cases "c_id x = campId")
    case True
    with di x cm have "x = cmp" by (auto intro: distinct_c_id_eq)
    with a True show ?thesis
      by (simp add: x' set_beds_def active_on_def s new_selection_def)
  next
    case False
    with a show ?thesis
      by (simp add: x' set_beds_def active_on_def s new_selection_def)
  qed
qed

lemma beds_agree_cancel:
  assumes ag: "beds_agree st" and di: "distinct (map c_id (tbl_camps st))"
    and one: "active_of st uid = [s]"
    and s: "tbl_camp_selections st' = map (cancel_row now uid) (tbl_camp_selections st)"
    and t: "(\<forall>x \<in> set (tbl_camps st). c_id x \<noteq> camp_id s) \<and> tbl_camps st' = tbl_camps st \<or>
            (\<exists>cmp. cmp \<in> set (tbl_camps st) \<and> c_id cmp = camp_id s \<and>
               tbl_camps st' = map (set_beds now (camp_id s) (beds cmp + 1)) (tbl_camps st))"
  shows "beds_agree st'"
proof -
  have cnt: "int (length (active_on st' k)) =
             int (length (active_on st k)) - (if camp_id s = k then 1 else 0)" for k
  proof -
    have "length (active_on st' k) + length (filter (\<lambda>t. camp_id t = k) (active_of st uid)) =
          length (active_on st k)"
      unfolding active_on_def active_of_def s by (rule active_count_after_cancel)
    then show ?thesis
      unfolding one by (cases "camp_id s = k") simp_all
  qed
  from t show ?thesis
  proof (elim disjE conjE exE)
    assume n: "\<forall>x \<in> set (tbl_camps st). c_id x \<noteq> camp_id s" and e: "tbl_camps st' = tbl_camps st"
    with ag show ?thesis
      by (auto simp: beds_agree_def cnt)
  next
    fix cmp
    assume cm: "cmp \<in> set (tbl_camps st)" "c_id cmp = camp_id s"
      and e: "tbl_camps st' = map (set_beds now (camp_id s) (beds cmp + 1)) (tbl_camps st)"
    show ?thesis
      unfolding beds_agree_def
    proof
      fix x' assume "x' \<in> set (tbl_camps st')"
      then obtain x where x: "x \<in> set (tbl_camps st)"
        and x': "x' = set_beds now (camp_id s) (beds cmp + 1) x"
        unfolding e by auto
      from ag x have a: "beds x + int (length (active_on st (c_id x))) = original_beds x"
        by (simp add: beds_agree_def)
      show "beds x' + int (length (active_on st' (c_id x'))) = original_beds x'"
      proof (cases "c_id x = camp_id s")
        case True
        with di x cm have "x = cmp" by (auto intro: distinct_c_id_eq)
        with a True show ?thesis
          by (simp add: x' set_beds_def cnt)
      next
        case False
        with a show ?thesis
          by (simp add: x' set_beds_def cnt)
      qed
    qed
  qed
qed

lemma beds_agree_add:
  assumes ag: "beds_agree st" and ig: "ids_generated st"
    and r: "c_id r = next_uuid st" "beds r = original_beds r"
    and t: "tbl_camps st' = tbl_camps st @ [r]"
    and s: "tbl_camp_selections st' = tbl_camp_selections st"
  shows "beds_agree st'"
proof -
  from ig have "\<forall>t \<in> set (tbl_camp_selections st). camp_id t \<noteq> next_uuid st"
    by (auto simp: ids_generated_def)
  then have "active_on st' (c_id r) = []"
    by (simp add: active_on_def s r filter_empty_conv)
  with ag r show ?thesis
    by (auto simp: beds_agree_def t active_on_def s)
qed

lemma filter_filter_subsumed:
  "(\<And>x. P x \<Longrightarrow> Q x) \<Longrightarrow> filter P (filter Q xs) = filter P xs"
  by (induction xs) auto

lemma beds_agree_delete:
  assumes ag: "beds_agree st"
    and t: "tbl_camps st' = filter (\<lambda>x. c_id x \<noteq> campId) (tbl_camps st)"
    and s: "tbl_camp_selections st' = filter (\<lambda>s. camp_id s \<noteq> campId) (tbl_camp_selections st)"
  shows "beds_agree st'"
  unfolding beds_agree_def
proof
  fix x assume "x \<in> set (tbl_camps st')"
  then have x: "x \<in> set (tbl_camps st)" and n: "c_id x \<noteq> campId"
    unfolding t by simp_all
  from n have "active_on st' (c_id x) = active_on st (c_id x)"
    unfolding active_on_def s by (intro filter_filter_subsumed) simp
  with ag x show "beds x + int (length (active_on st' (c_id x))) = original_beds x"
    by (simp add: beds_agree_def)
qed

lemma error_None: "error r = None \<Longrightarrow> \<exists>x. r = Success x"
  by (cases r) simp_all

lemma selection_loaded_active:
  assumes "selection_loaded c st" and "currentUser c = Some u" and "userSelection c = Some sel"
  shows "active_of st (u_id u) = [fst sel]"
  using assms
  by (auto simp: selection_loaded_def split: list.splits)

lemma selectCamp_two_calls:
  "selectCamp down now campId c st =
     (case selectCamp_insert down now campId c st of
        Inl f \<Rightarrow> (Failure f, c, st)
      | Inr (vars, st1) \<Rightarrow> selectCamp_update down now campId vars c st1)"
  by (simp add: selectCamp_def selectCamp_insert_def selectCamp_update_def
      split: option.splits sum.splits prod.splits)

lemma cancelSelection_two_calls:
  "cancelSelection down now c st =
     (case cancelSelection_cancel down now c st of
        Inl f \<Rightarrow> (Failure f, c, st)
      | Inr (vars, st1) \<Rightarrow> cancelSelection_update down now vars c st1)"
proof (cases "currentUser c")
  case None
  then show ?thesis
    by (simp add: cancelSelection_def cancelSelection_cancel_def)
next
  case (Some u)
  show ?thesis
  proof (cases "userSelection c")
    case None
    with Some show ?thesis
      by (simp add: cancelSelection_def cancelSelection_cancel_def)
  next
    case (Some sel)
    with \<open>currentUser c = Some u\<close> show ?thesis
      by (cases "cancelCampSelection (down 0) now (u_id u) st")
        (simp_all add: cancelSelection_def cancelSelection_cancel_def cancelSelection_update_def
          Let_def split: option.splits)
  qed
qed

lemma selectCamp_agree:
  assumes p: "selectCamp down now campId c st = (Success x, c', st')"
    and ag: "beds_agree st" and cl: "camps_loaded c st"
    and di: "distinct (map c_id (tbl_camps st))"
  shows "beds_agree st'"
proof -
  from selectCamp_Success [OF p] obtain u :: user and cmp where
    f: "find (\<lambda>x. c_id x = campId) (camps c) = Some cmp"
    and s: "tbl_camp_selections st' = tbl_camp_selections st @ [new_selection st now (u_id u) campId]"
    and t: "tbl_camps st' = map (set_beds now campId (beds cmp - 1)) (tbl_camps st)"
    by blast
  from loaded_camp_stored [OF cl f] have "cmp \<in> set (tbl_camps st)" "c_id cmp = campId"
    by simp_all
  from beds_agree_select [OF ag di this s t] show ?thesis .
qed

lemma cancelSelection_agree:
  assumes p: "cancelSelection down now c st = (Success x, c', st')"
    and ag: "beds_agree st" and cl: "camps_loaded c st" and sl: "selection_loaded c st"
    and di: "distinct (map c_id (tbl_camps st))"
  shows "beds_agree st'"
proof -
  from cancelSelection_Success [OF p] obtain u :: user and sel where
    cu: "currentUser c = Some u" and us: "userSelection c = Some sel"
    and s: "tbl_camp_selections st' = map (cancel_row now (u_id u)) (tbl_camp_selections st)"
    and t: "find (\<lambda>x. c_id x = camp_id (fst sel)) (camps c) = None \<and> tbl_camps st' = tbl_camps st \<or>
            (\<exists>cmp. find (\<lambda>x. c_id x = camp_id (fst sel)) (camps c) = Some cmp \<and>
               tbl_camps st' = map (set_beds now (camp_id (fst sel)) (beds cmp + 1)) (tbl_camps st))"
    by blast
  note one = selection_loaded_active [OF sl cu us]
  from t have "(\<forall>x \<in> set (tbl_camps st). c_id x \<noteq> camp_id (fst sel)) \<and> tbl_camps st' = tbl_camps st \<or>
            (\<exists>cmp. cmp \<in> set (tbl_camps st) \<and> c_id cmp = camp_id (fst sel) \<and>
               tbl_camps st' = map (set_beds now (camp_id (fst sel)) (beds cmp + 1)) (tbl_camps st))"
    using loaded_camp_missing [OF cl] loaded_camp_stored [OF cl] by blast
  from beds_agree_cancel [OF ag di one s this] show ?thesis .
qed

lemma addCamp_agree:
  assumes p: "addCamp down now d c st = (Success x, c', st')"
    and ag: "beds_agree st" and ig: "ids_generated st"
  shows "beds_agree st'"
proof -
  from addCamp_Success [OF p]
  have "c_id x = next_uuid st" "beds x = original_beds x" "tbl_camps st' = tbl_camps st @ [x]"
    "tbl_camp_selections st' = tbl_camp_selections st"
    by simp_all
  from beds_agree_add [OF ag ig this] show ?thesis .
qed

lemma deleteCamp_agree:
  assumes p: "deleteCamp down campId c st = (Success x, c', st')" and ag: "beds_agree st"
  shows "beds_agree st'"
proof -
  from deleteCamp_success [OF p]
  have "tbl_camps st' = filter (\<lambda>x. c_id x \<noteq> campId) (tbl_camps st)"
    "tbl_camp_selections st' = filter (\<lambda>s. camp_id s \<noteq> campId) (tbl_camp_selections st)"
    by simp_all
  from beds_agree_delete [OF ag this] show ?thesis .
qed

text \<open>
  Why the second write has to be served on the store that the first write left: A and
  B, each with camp C loaded with its one bed, select C, and the store serves A's
  insert, B's insert, A's update, B's update. Both browsers were up to date when they
  started and both calls succeed, yet C ends with no bed and two active selections
  against a capacity of one.
\<close>

lemma interleaved_selections_disagree:
  "beds_agree store_C \<and> camps_loaded client_A store_C \<and> camps_loaded client_B store_C \<and>
   selection_loaded client_A store_C \<and> selection_loaded client_B store_C \<and>
   map_option (\<lambda>(rA, rB, st). (success rA, success rB, beds_agree st, camp_beds st 0,
                 map original_beds (tbl_camps st), map user_id (active_on st 0)))
     interleaved_selections = Some (True, True, False, [0], [1], [1, 2])"
  by code_simp

text \<open>
  C3, as the code has it. A call that returns failure leaves the browser as it was,
  and leaves the store as it was unless the call is a \<open>selectCamp\<close> or a
  \<open>cancelSelection\<close> whose first write succeeded and whose \<open>updateCamp\<close> then failed,
  because the store was unavailable or because the new beds count does not fit the
  32-bit column: the operations are not atomic, the first write stays (the new active
  row, or the cancellation) and the beds count is not adjusted. A \<open>selectCamp\<close> or
  \<open>cancelSelection\<close> that succeeds keeps beds and active selections in agreement when
  the browser was up to date as it started (it had loaded the camps, and for a
  cancellation the user's selection, as the store has them), camp ids are distinct,
  and its \<open>updateCamp\<close> is served on the very store that its first write left, that is,
  with no other call served in between. A successful \<open>addCamp\<close> keeps the agreement
  when every id in use has been generated, a successful \<open>deleteCamp\<close> always. As in the
  whole client section, the subscribers called by \<open>notify()\<close> return normally.
\<close>

theorem failed_call_state:
  "(perform down now opn c st = (Some e, c', st') \<longrightarrow>
      c' = c \<and>
      (st' = st \<or>
       ((down 1 \<and> e = StoreError Unavailable \<or> e = StoreError NumericValueOutOfRange) \<and>
        ((\<exists>campId u. opn = SelectCamp campId \<and> currentUser c = Some u \<and>
            st' = st\<lparr> tbl_camp_selections :=
                        tbl_camp_selections st @ [new_selection st now (u_id u) campId],
                      next_uuid := Suc (next_uuid st) \<rparr>) \<or>
         (\<exists>u. opn = CancelSelection \<and> currentUser c = Some u \<and>
            st' = st\<lparr> tbl_camp_selections :=
                        map (cancel_row now (u_id u)) (tbl_camp_selections st) \<rparr>))))) \<and>
   (selectCamp_insert down now campId c st = Inr (vars, st1) \<and>
    selectCamp_update down now campId vars c st1 = (Success x, c1, st2) \<and>
    beds_agree st \<and> camps_loaded c st \<and> distinct (map c_id (tbl_camps st))
    \<longrightarrow> beds_agree st2) \<and>
   (cancelSelection_cancel down now c st = Inr (cvars, st3) \<and>
    cancelSelection_update down now cvars c st3 = (Success y, c2, st4) \<and>
    beds_agree st \<and> camps_loaded c st \<and> selection_loaded c st \<and>
    distinct (map c_id (tbl_camps st))
    \<longrightarrow> beds_agree st4) \<and>
   (addCamp down now campData c st = (Success newCamp, c3, st5) \<and>
    beds_agree st \<and> ids_generated st \<longrightarrow> beds_agree st5) \<and>
   (deleteCamp down campId c st = (Success z, c4, st6) \<and> beds_agree st \<longrightarrow> beds_agree st6)"
proof (intro conjI impI)
  assume "perform down now opn c st = (Some e, c', st')"
  from perform_failure [OF this]
  show "c' = c" and "st' = st \<or>
       ((down 1 \<and> e = StoreError Unavailable \<or> e = StoreError NumericValueOutOfRange) \<and>
        ((\<exists>campId u. opn = SelectCamp campId \<and> currentUser c = Some u \<and>
            st' = st\<lparr> tbl_camp_selections :=
                        tbl_camp_selections st @ [new_selection st now (u_id u) campId],
                      next_uuid := Suc (next_uuid st) \<rparr>) \<or>
         (\<exists>u. opn = CancelSelection \<and> currentUser c = Some u \<and>
            st' = st\<lparr> tbl_camp_selections :=
                        map (cancel_row now (u_id u)) (tbl_camp_selections st) \<rparr>)))"
    by simp_all
next
  assume a: "selectCamp_insert down now campId c st = Inr (vars, st1) \<and>
    selectCamp_update down now campId vars c st1 = (Success x, c1, st2) \<and>
    beds_agree st \<and> camps_loaded c st \<and> distinct (map c_id (tbl_camps st))"
  then have "selectCamp down now campId c st = (Success x, c1, st2)"
    by (simp add: selectCamp_two_calls)
  from selectCamp_agree [OF this] a show "beds_agree st2" by simp
next
  assume a: "cancelSelection_cancel down now c st = Inr (cvars, st3) \<and>
    cancelSelection_update down now cvars c st3 = (Success y, c2, st4) \<and>
    beds_agree st \<and> camps_loaded c st \<and> selection_loaded c st \<and>
    distinct (map c_id (tbl_camps st))"
  then have "cancelSelection down now c st = (Success y, c2, st4)"
    by (simp add: cancelSelection_two_calls)
  from cancelSelection_agree [OF this] a show "beds_agree st4" by simp
next
  assume a: "addCamp down now campData c st = (Success newCamp, c3, st5) \<and>
    beds_agree st \<and> ids_generated st"
  then have "addCamp down now campData c st = (Success newCamp, c3, st5)" by simp
  from addCamp_agree [OF this] a show "beds_agree st5" by simp
next
  assume a: "deleteCamp down campId c st = (Success z, c4, st6) \<and> beds_agree st"
  then have "deleteCamp down campId c st = (Success z, c4, st6)" by simp
  from deleteCamp_agree [OF this] a show "beds_agree st6" by simp
qed

theorem failed_call_state_witness:
  "fst (perform update_fails 3 (SelectCamp 0) client_A store_C) = Some (StoreError Unavailable) \<and>
   fst (snd (perform update_fails 3 (SelectCamp 0) client_A store_C)) = client_A \<and>
   fst (perform no_faults 3 CancelSelection client_A_max store_C_max)
     = Some (StoreError NumericValueOutOfRange) \<and>
   fst (snd (perform no_faults 3 CancelSelection client_A_max store_C_max)) = client_A_max \<and>
   beds_agree store_C \<and> camps_loaded client_A store_C \<and>
   distinct (map c_id (tbl_camps store_C)) \<and> ids_generated store_C \<and>
   selectCamp_insert no_faults 3 0 client_A store_C = Inr ((selection_A, camp_C), store_C_selected) \<and>
   success (fst (selectCamp_update no_faults 3 0 (selection_A, camp_C) client_A store_C_selected)) \<and>
   beds_agree (snd (snd (selectCamp_update no_faults 3 0 (selection_A, camp_C) client_A
     store_C_selected))) \<and>
   beds_agree (db system_C_taken) \<and> camps_loaded (clients system_C_taken 0) (db system_C_taken) \<and>
   selection_loaded (clients system_C_taken 0) (db system_C_taken) \<and>
   distinct (map c_id (tbl_camps (db system_C_taken))) \<and>
   success (fst (cancelSelection no_faults 5 (clients system_C_taken 0) (db system_C_taken))) \<and>
   beds_agree (snd (snd (cancelSelection_update no_faults 5 (0, Some camp_C_taken)
     (clients system_C_taken 0)
     (db system_C_taken\<lparr> tbl_camp_selections := [cancel_row 5 1 selection_A] \<rparr>)))) \<and>
   success (fst (addCamp no_faults 5 camp_data_D client_V store_C)) \<and>
   beds_agree (snd (snd (addCamp no_faults 5 camp_data_D client_V store_C))) \<and>
   success (fst (deleteCamp no_faults 0 client_V (db system_C_taken))) \<and>
   beds_agree (snd (snd (deleteCamp no_faults 0 client_V (db system_C_taken))))"
proof -
  let ?f = "perform update_fails 3 (SelectCamp 0) client_A store_C"
  let ?g = "perform no_faults 3 CancelSelection client_A_max store_C_max"
  let ?s = "selectCamp_update no_faults 3 0 (selection_A, camp_C) client_A store_C_selected"
  let ?cT = "clients system_C_taken 0"
  let ?dT = "db system_C_taken"
  let ?d1 = "?dT\<lparr> tbl_camp_selections := [cancel_row 5 1 selection_A] \<rparr>"
  let ?k = "cancelSelection_update no_faults 5 (0, Some camp_C_taken) ?cT ?d1"
  let ?a = "addCamp no_faults 5 camp_data_D client_V store_C"
  let ?d = "deleteCamp no_faults 0 client_V ?dT"
  have rf: "fst ?f = Some (StoreError Unavailable)"
    by code_simp
  have rg: "fst ?g = Some (StoreError NumericValueOutOfRange)"
    by code_simp
  have ef: "?f = (Some (StoreError Unavailable), fst (snd ?f), snd (snd ?f))"
    using rf by (metis prod.collapse)
  have eg: "?g = (Some (StoreError NumericValueOutOfRange), fst (snd ?g), snd (snd ?g))"
    using rg by (metis prod.collapse)
  have ag: "beds_agree store_C"
    by code_simp
  have cl: "camps_loaded client_A store_C"
    by code_simp
  have di: "distinct (map c_id (tbl_camps store_C))"
    by (simp add: store_C_def)
  have ig: "ids_generated store_C"
    by (simp add: ids_generated_def store_C_def camp_C_def)
  have si: "selectCamp_insert no_faults 3 0 client_A store_C = Inr ((selection_A, camp_C), store_C_selected)"
    by code_simp
  have ss: "success (fst ?s)"
    by code_simp
  then obtain x where "fst ?s = Success x"
    by (cases "fst ?s") simp_all
  then have es: "?s = (Success x, fst (snd ?s), snd (snd ?s))"
    by (metis prod.collapse)
  have agT: "beds_agree ?dT"
    by code_simp
  have clT: "camps_loaded ?cT ?dT"
    by code_simp
  have slT: "selection_loaded ?cT ?dT"
    by code_simp
  have diT: "distinct (map c_id (tbl_camps ?dT))"
    by code_simp
  have ci: "cancelSelection_cancel no_faults 5 ?cT ?dT = Inr ((0, Some camp_C_taken), ?d1)"
    by code_simp
  have sk: "success (fst ?k)"
    by code_simp
  then obtain y where "fst ?k = Success y"
    by (cases "fst ?k") simp_all
  then have ek: "?k = (Success y, fst (snd ?k), snd (snd ?k))"
    by (metis prod.collapse)
  have sc: "success (fst (cancelSelection no_faults 5 ?cT ?dT))"
    using sk ci by (simp add: cancelSelection_two_calls)
  have sa: "success (fst ?a)"
    by code_simp
  then obtain w where "fst ?a = Success w"
    by (cases "fst ?a") simp_all
  then have ea: "?a = (Success w, fst (snd ?a), snd (snd ?a))"
    by (metis prod.collapse)
  have sd: "success (fst ?d)"
    by code_simp
  then obtain z where "fst ?d = Success z"
    by (cases "fst ?d") simp_all
  then have ed: "?d = (Success z, fst (snd ?d), snd (snd ?d))"
    by (metis prod.collapse)
  have 1: "fst (snd ?f) = client_A"
    using failed_call_state [where down = update_fails and now = 3 and opn = "SelectCamp 0"
        and c = client_A and st = store_C and e = "StoreError Unavailable"
        and c' = "fst (snd ?f)" and st' = "snd (snd ?f)", THEN conjunct1] ef
    by blast
  have 2: "fst (snd ?g) = client_A_max"
    using failed_call_state [where down = no_faults and now = 3 and opn = CancelSelection
        and c = client_A_max and st = store_C_max and e = "StoreError NumericValueOutOfRange"
        and c' = "fst (snd ?g)" and st' = "snd (snd ?g)", THEN conjunct1] eg
    by blast
  have 3: "beds_agree (snd (snd ?s))"
    using failed_call_state [where down = no_faults and now = 3 and campId = 0 and c = client_A
        and st = store_C and vars = "(selection_A, camp_C)" and ?st1.0 = store_C_selected
        and x = x and ?c1.0 = "fst (snd ?s)" and ?st2.0 = "snd (snd ?s)",
        THEN conjunct2, THEN conjunct1] si es ag cl di
    by blast
  have 4: "beds_agree (snd (snd ?k))"
    using failed_call_state [where down = no_faults and now = 5 and c = ?cT and st = ?dT
        and cvars = "(0, Some camp_C_taken)" and ?st3.0 = ?d1 and y = y
        and ?c2.0 = "fst (snd ?k)" and ?st4.0 = "snd (snd ?k)",
        THEN conjunct2, THEN conjunct2, THEN conjunct1] ci ek agT clT slT diT
    by blast
  have 5: "beds_agree (snd (snd ?a))"
    using failed_call_state [where down = no_faults and now = 5 and campData = camp_data_D
        and c = client_V and st = store_C and newCamp = w and ?c3.0 = "fst (snd ?a)"
        and ?st5.0 = "snd (snd ?a)",
        THEN conjunct2, THEN conjunct2, THEN conjunct2, THEN conjunct1] ea ag ig
    by blast
  have 6: "beds_agree (snd (snd ?d))"
    using failed_call_state [where down = no_faults and campId = 0 and c = client_V and st = ?dT
        and z = z and ?c4.0 = "fst (snd ?d)" and ?st6.0 = "snd (snd ?d)",
        THEN conjunct2, THEN conjunct2, THEN conjunct2, THEN conjunct2] ed agT
    by blast
  show ?thesis
    by (intro conjI rf 1 rg 2 ag cl di ig si ss 3 agT clT slT diT sc 4 sa 5 sd 6)
qed

text \<open>
  C3 as stated fails. A is logged in and has loaded camp C (one bed, no selection);
  beds and selections agree. A selects C and the store fails on \<open>updateCamp\<close>: the
  call returns failure, yet the store now holds an active selection of C while C
  still has \<open>beds = 1 = original_beds\<close>.
\<close>

theorem failed_select_counterexample:
  "beds_agree (db (run system_C logged_in_A)) \<and>
   outcome (run system_C logged_in_A) (Event 0 update_fails 3 (SelectCamp 0))
     = Some (StoreError Unavailable) \<and>
   tbl_camp_selections (db (run system_C logged_in_A)) = [] \<and>
   map status (tbl_camp_selections (db (run system_C half_selected))) = [Active] \<and>
   camp_beds (db (run system_C half_selected)) 0 = [1] \<and>
   map original_beds (tbl_camps (db (run system_C half_selected))) = [1] \<and>
   \<not> beds_agree (db (run system_C half_selected))"
  by code_simp

subsection \<open>How one call changes the camps table and the loaded camps\<close>











subsection \<open>The lower bound on beds\<close>






subsection \<open>The upper bound on beds\<close>

lemma c_id_comp_set_beds [simp]: "c_id \<circ> set_beds now cid b = c_id"
  by (rule ext) simp











subsection \<open>Which exceptions leave an operation\<close>













subsection \<open>With subscribers that return, the operations of the client section\<close>










lemma addCamp_js_null:
  "currentUser c = Some u \<Longrightarrow> u_role u = Volunteer \<Longrightarrow>
   addCamp_js subs down now None c st = (Returns (Failed TypeErrorMessage), c, st)"
  by (simp add: addCamp_js_def try_catch_def catch_block_def)




end
